theory Spec2Isabelle
  imports Main "HOL-Library.Sublist"
begin

section \<open>Data model of the table component\<close>

text \<open>
  The TypeScript objects are shared by reference: a \<open>TableCell\<close> is referenced from its
  row array and from every matrix position that projects it, and a row array is
  referenced from \<open>config.bodies\<close> and from the positions of its matrix row. Objects
  therefore live in arenas and are addressed by index: \<open>cellsH\<close> holds the cell objects,
  \<open>rowsH\<close> the row arrays (lists of cell references), \<open>fragsH\<close> the contents of the
  fragments. \<open>bodies\<close> is \<open>config.bodies\<close>, a list of row-array references.
\<close>

datatype content = BrComponent | Component nat

record TableCell =
  colspan :: int
  rowspan :: int
  fragment :: nat

record TableCellPosition =
  beforeCell :: "nat option"
  afterCell :: "nat option"
  row :: nat
  cell :: nat
  rowIndex :: "int option"
  columnIndex :: "int option"
  offsetColumn :: nat
  offsetRow :: nat

record TableRowPosition =
  cells :: nat
  beforeRow :: "nat option"
  afterRow :: "nat option"
  cellsPosition :: "TableCellPosition list"

record TableComponent =
  cellsH :: "TableCell list"
  rowsH :: "nat list list"
  fragsH :: "content list list"
  bodies :: "nat list"
  dirtied :: bool

datatype error = TypeError

subsection \<open>JavaScript array primitives\<close>

text \<open>\<open>Array.prototype.indexOf\<close>: the first index holding the value, or \<open>-1\<close>.\<close>

fun indexOf :: "'a list \<Rightarrow> 'a \<Rightarrow> int" where
  "indexOf [] x = - 1"
| "indexOf (y # ys) x =
     (if y = x then 0 else (let i = indexOf ys x in if i < 0 then - 1 else i + 1))"

text \<open>
  The relative index of \<open>splice\<close> and \<open>slice\<close>: a negative index counts from the end,
  and the result is clamped to \<open>[0, length]\<close>.
\<close>

definition relIndex :: "'a list \<Rightarrow> int \<Rightarrow> nat" where
  "relIndex xs i =
     (let n = int (length xs) in nat (if i < 0 then max (n + i) 0 else min i n))"

text \<open>\<open>xs.splice(start, deleteCount, ...items)\<close>, returning the array after the call.\<close>

definition splice :: "int \<Rightarrow> nat \<Rightarrow> 'a list \<Rightarrow> 'a list \<Rightarrow> 'a list" where
  "splice start deleteCount items xs =
     (let i = relIndex xs start in take i xs @ items @ drop (i + deleteCount) xs)"

text \<open>\<open>xs.slice(start, end)\<close>.\<close>

definition slice :: "int \<Rightarrow> int \<Rightarrow> 'a list \<Rightarrow> 'a list" where
  "slice start end xs =
     (let i = relIndex xs start; j = relIndex xs end in take (j - i) (drop i xs))"

text \<open>\<open>xs[i]\<close> for a number or \<open>null\<close>: \<open>undefined\<close> (here \<open>None\<close>) off the array.\<close>

definition element :: "'a list \<Rightarrow> int option \<Rightarrow> 'a option" where
  "element xs i =
     (case i of None \<Rightarrow> None
      | Some n \<Rightarrow> if 0 \<le> n \<and> n < int (length xs) then Some (xs ! nat n) else None)"

text \<open>\<open>ToNumber\<close> of an index that may be \<open>null\<close>.\<close>

definition toNumber :: "int option \<Rightarrow> int" where
  "toNumber i = (case i of None \<Rightarrow> 0 | Some n \<Rightarrow> n)"

text \<open>\<open>Array.from(new Set(xs))\<close>: the first occurrence of every value, in order.\<close>

fun distinctValues :: "'a list \<Rightarrow> 'a list" where
  "distinctValues [] = []"
| "distinctValues (x # xs) = x # distinctValues (filter (\<lambda>y. y \<noteq> x) xs)"

text \<open>\<open>forEach\<close> with a callback that may throw: the first error ends the loop.\<close>

fun forEach :: "('a \<Rightarrow> 's \<Rightarrow> error + 's) \<Rightarrow> 'a list \<Rightarrow> 's \<Rightarrow> error + 's" where
  "forEach f [] s = Inr s"
| "forEach f (x # xs) s = (case f x s of Inl e \<Rightarrow> Inl e | Inr s' \<Rightarrow> forEach f xs s')"

text \<open>\<open>forEach\<close> with a callback that cannot throw.\<close>

fun each :: "('a \<Rightarrow> 's \<Rightarrow> 's) \<Rightarrow> 'a list \<Rightarrow> 's \<Rightarrow> 's" where
  "each f [] s = s"
| "each f (x # xs) s = each f xs (f x s)"

section \<open>The matrix projector: \<open>TableComponent.serialize\<close>\<close>

text \<open>
  The state of the two nested loops: the matrix rows built so far, the dedup markers
  (the string \<open>`${r}*${c}`\<close> as the pair \<open>(r, c)\<close>), the flag \<open>stop\<close>, and the arena of row
  arrays, which grows by one empty array for every matrix row that has no row in
  \<open>bodies\<close>.
\<close>

record SerializeState =
  rowsS :: "TableRowPosition list"
  marksS :: "(nat \<times> nat) list"
  stopS :: bool
  arraysS :: "nat list list"

text \<open>The seed of matrix row \<open>i\<close> (the first \<open>for\<close> loop of \<open>serialize\<close>).\<close>

definition seedCell :: "nat \<Rightarrow> nat list \<Rightarrow> nat \<Rightarrow> TableCellPosition" where
  "seedCell r cs index =
     \<lparr>beforeCell = (if 0 < index then Some (cs ! (index - 1)) else None),
      afterCell = (if index + 1 < length cs then Some (cs ! (index + 1)) else None),
      row = r, cell = cs ! index, rowIndex = None, columnIndex = None,
      offsetColumn = 0, offsetRow = 0\<rparr>"

definition seedRow :: "TableComponent \<Rightarrow> nat \<Rightarrow> TableRowPosition" where
  "seedRow t i =
     (let r = bodies t ! i; cs = rowsH t ! r in
      \<lparr>cells = r,
       beforeRow = (if 0 < i then Some (bodies t ! (i - 1)) else None),
       afterRow = (if i + 1 < length (bodies t) then Some (bodies t ! (i + 1)) else None),
       cellsPosition = map (seedCell r cs) [0..<length cs]\<rparr>)"

text \<open>The assignment \<open>cellPosition.rowIndex = rowIndex; cellPosition.columnIndex = columnIndex\<close>.\<close>

definition locate :: "nat \<Rightarrow> nat \<Rightarrow> TableCellPosition \<Rightarrow> TableCellPosition" where
  "locate r c p = p\<lparr>rowIndex := Some (int r), columnIndex := Some (int c)\<rparr>"

definition setCellsPosition ::
  "nat \<Rightarrow> TableCellPosition list \<Rightarrow> TableRowPosition list \<Rightarrow> TableRowPosition list" where
  "setCellsPosition r ps rws = rws[r := (rws ! r)\<lparr>cellsPosition := ps\<rparr>]"

text \<open>The first \<open>if\<close> of the loop body: the projection one column to the right.\<close>

definition spanRight ::
  "TableCell list \<Rightarrow> nat \<Rightarrow> nat \<Rightarrow> TableCellPosition \<Rightarrow> SerializeState \<Rightarrow> SerializeState" where
  "spanRight cs c r p st =
     (if int (offsetColumn p) + 1 < colspan (cs ! cell p) \<and> (r, c + 1) \<notin> set (marksS st)
      then
        (let rw = rowsS st ! r;
             q = \<lparr>beforeCell = beforeCell p, afterCell = afterCell p, row = cells rw,
                  cell = cell p, rowIndex = Some (int r), columnIndex = Some (int c),
                  offsetColumn = offsetColumn p + 1, offsetRow = offsetRow p\<rparr>
         in st\<lparr>rowsS := setCellsPosition r (splice (int c + 1) 0 [q] (cellsPosition rw)) (rowsS st),
               marksS := marksS st @ [(r, c + 1)]\<rparr>)
      else st)"

text \<open>
  The second \<open>if\<close>: the projection one row down, into the next matrix row, which is
  created (with a fresh, empty \<open>cells\<close> array) when the current row is the last.
\<close>

definition spanDown ::
  "TableCell list \<Rightarrow> nat \<Rightarrow> nat \<Rightarrow> TableCellPosition \<Rightarrow> SerializeState \<Rightarrow> SerializeState" where
  "spanDown cs c r p st =
     (if int (offsetRow p) + 1 < rowspan (cs ! cell p) \<and> (r + 1, c) \<notin> set (marksS st)
      then
        (let rw = rowsS st ! r;
             st1 = (if r + 1 < length (rowsS st) then st
                    else st\<lparr>rowsS := rowsS st @
                               [rw\<lparr>cells := length (arraysS st), cellsPosition := []\<rparr>],
                            arraysS := arraysS st @ [[]]\<rparr>);
             nextRow = rowsS st1 ! (r + 1);
             newRowBeforeColumn = element (cellsPosition nextRow) (Some (int c - 1));
             newRowAfterColumn = element (cellsPosition nextRow) (Some (int c));
             q = \<lparr>beforeCell = map_option cell newRowBeforeColumn,
                  afterCell = map_option cell newRowAfterColumn,
                  row = cells nextRow, cell = cell p,
                  rowIndex = Some (int r), columnIndex = Some (int c),
                  offsetColumn = offsetColumn p, offsetRow = offsetRow p + 1\<rparr>
         in st1\<lparr>rowsS := setCellsPosition (r + 1) (splice (int c) 0 [q] (cellsPosition nextRow))
                            (rowsS st1),
                marksS := marksS st1 @ [(r + 1, c)]\<rparr>)
      else st)"

text \<open>The body of the inner \<open>while\<close> loop at \<open>rowIndex = r\<close>, \<open>columnIndex = c\<close>.\<close>

definition visit :: "TableCell list \<Rightarrow> nat \<Rightarrow> nat \<Rightarrow> SerializeState \<Rightarrow> SerializeState" where
  "visit cs c r st =
     (let ps = cellsPosition (rowsS st ! r) in
      if c < length ps then
        (let p = locate r c (ps ! c);
             st1 = st\<lparr>rowsS := setCellsPosition r (ps[c := p]) (rowsS st)\<rparr>
         in (spanDown cs c r p (spanRight cs c r p st1))\<lparr>stopS := True\<rparr>)
      else st)"

subsection \<open>The inner loop over the rows terminates\<close>

text \<open>
  The inner \<open>while\<close> loop runs while \<open>rowIndex < rows.length\<close>, and its body can push a
  row. Every row from \<open>rowIndex\<close> on counts one plus the number of rows the position at
  the current column still has to project below itself; a visit never increases that sum
  for the rows after it.
\<close>

definition down :: "TableCell list \<Rightarrow> nat \<Rightarrow> TableRowPosition \<Rightarrow> nat" where
  "down cs c rw = (let ps = cellsPosition rw in
     if c < length ps then nat (rowspan (cs ! cell (ps ! c)) - 1 - int (offsetRow (ps ! c))) else 0)"

definition rowsBelow :: "TableCell list \<Rightarrow> nat \<Rightarrow> nat \<Rightarrow> SerializeState \<Rightarrow> nat" where
  "rowsBelow cs c r st = sum_list (map (\<lambda>rw. Suc (down cs c rw)) (drop r (rowsS st)))"

lemma drop_setCellsPosition: "r < n \<Longrightarrow> drop n (setCellsPosition r ps rws) = drop n rws"
  by (simp add: setCellsPosition_def)

lemma length_setCellsPosition [simp]: "length (setCellsPosition r ps rws) = length rws"
  by (simp add: setCellsPosition_def)

lemma spanRight_drop: "drop (Suc r) (rowsS (spanRight cs c r p st)) = drop (Suc r) (rowsS st)"
  by (simp add: spanRight_def Let_def drop_setCellsPosition)

lemma spanRight_length [simp]: "length (rowsS (spanRight cs c r p st)) = length (rowsS st)"
  by (simp add: spanRight_def Let_def)

lemma down_splice_le:
  "down cs c (rw\<lparr>cellsPosition := splice (int c) 0 [q] ps\<rparr>)
     \<le> nat (rowspan (cs ! cell q) - 1 - int (offsetRow q))"
  by (simp add: down_def splice_def relIndex_def Let_def min_def nth_append)

lemma rowsBelow_Suc:
  "r < length (rowsS st) \<Longrightarrow>
     rowsBelow cs c r st = Suc (down cs c (rowsS st ! r)) + rowsBelow cs c (Suc r) st"
  by (simp add: rowsBelow_def Cons_nth_drop_Suc [symmetric])

lemma spanDown_below:
  assumes "r < length (rowsS st)"
  shows "rowsBelow cs c (Suc r) (spanDown cs c r p st)
           \<le> rowsBelow cs c (Suc r) st + nat (rowspan (cs ! cell p) - 1 - int (offsetRow p))"
proof (cases "int (offsetRow p) + 1 < rowspan (cs ! cell p) \<and> (r + 1, c) \<notin> set (marksS st)")
  case False
  then have "spanDown cs c r p st = st" unfolding spanDown_def by (rule if_not_P)
  then show ?thesis by simp
next
  case True
  define st1 where "st1 = (if r + 1 < length (rowsS st) then st
                    else st\<lparr>rowsS := rowsS st @
                               [(rowsS st ! r)\<lparr>cells := length (arraysS st), cellsPosition := []\<rparr>],
                            arraysS := arraysS st @ [[]]\<rparr>)"
  have len: "Suc r < length (rowsS st1)" using assms by (simp add: st1_def)
  have d2: "drop (Suc (Suc r)) (rowsS st1) = drop (Suc (Suc r)) (rowsS st)"
    using assms by (simp add: st1_def)
  obtain q ps where sd: "rowsS (spanDown cs c r p st) =
      setCellsPosition (r + 1) (splice (int c) 0 [q] ps) (rowsS st1)"
    and q: "cell q = cell p" "offsetRow q = offsetRow p + 1"
    using True by (simp add: spanDown_def Let_def st1_def)
  have "rowsBelow cs c (Suc r) (spanDown cs c r p st)
      = Suc (down cs c ((rowsS st1 ! Suc r)\<lparr>cellsPosition := splice (int c) 0 [q] ps\<rparr>))
        + sum_list (map (\<lambda>rw. Suc (down cs c rw)) (drop (Suc (Suc r)) (rowsS st)))"
    using len 
    by (simp add: rowsBelow_def sd setCellsPosition_def Cons_nth_drop_Suc [symmetric] d2)
  also have "\<dots> \<le> Suc (nat (rowspan (cs ! cell q) - 1 - int (offsetRow q)))
        + sum_list (map (\<lambda>rw. Suc (down cs c rw)) (drop (Suc (Suc r)) (rowsS st)))"
    using down_splice_le by simp
  also have "\<dots> \<le> nat (rowspan (cs ! cell p) - 1 - int (offsetRow p))
        + sum_list (map (\<lambda>rw. Suc (down cs c rw)) (drop (Suc (Suc r)) (rowsS st)))"
    using True q by (simp, linarith)
  also have "\<dots> \<le> nat (rowspan (cs ! cell p) - 1 - int (offsetRow p))
        + rowsBelow cs c (Suc r) st"
  proof (cases "Suc r < length (rowsS st)")
    case True
    then show ?thesis by (simp add: rowsBelow_def Cons_nth_drop_Suc [symmetric])
  next
    case False
    then show ?thesis by (simp add: rowsBelow_def)
  qed
  finally show ?thesis by simp
qed

lemma visit_below:
  assumes "r < length (rowsS st)"
  shows "rowsBelow cs c (Suc r) (visit cs c r st) < rowsBelow cs c r st"
proof (cases "c < length (cellsPosition (rowsS st ! r))")
  case False
  then show ?thesis using assms by (simp add: visit_def rowsBelow_Suc)
next
  case True
  define ps where "ps = cellsPosition (rowsS st ! r)"
  define p where "p = locate r c (ps ! c)"
  define st1 where "st1 = st\<lparr>rowsS := setCellsPosition r (ps[c := p]) (rowsS st)\<rparr>"
  define st2 where "st2 = spanRight cs c r p st1"
  have v: "visit cs c r st = (spanDown cs c r p st2)\<lparr>stopS := True\<rparr>"
    using True by (simp add: visit_def Let_def ps_def p_def st1_def st2_def)
  have l2: "r < length (rowsS st2)" using assms by (simp add: st2_def st1_def)
  have "rowsBelow cs c (Suc r) st2 = rowsBelow cs c (Suc r) st"
    by (simp add: rowsBelow_def st2_def spanRight_drop st1_def drop_setCellsPosition)
  moreover have "down cs c (rowsS st ! r) = nat (rowspan (cs ! cell p) - 1 - int (offsetRow p))"
    using True by (simp add: down_def p_def ps_def locate_def Let_def)
  moreover have "rowsBelow cs c (Suc r) (visit cs c r st) = rowsBelow cs c (Suc r) (spanDown cs c r p st2)"
    by (simp add: v rowsBelow_def)
  ultimately show ?thesis
    using spanDown_below [OF l2, of cs c p] rowsBelow_Suc [OF assms, of cs c] by simp
qed

text \<open>The inner loop: \<open>while (rowIndex < rows.length) { ...; rowIndex++ }\<close>.\<close>

function sweepRows :: "TableCell list \<Rightarrow> nat \<Rightarrow> nat \<Rightarrow> SerializeState \<Rightarrow> SerializeState" where
  "sweepRows cs c r st =
     (if r < length (rowsS st) then sweepRows cs c (r + 1) (visit cs c r st) else st)"
  by pat_completeness auto
termination
  by (relation "measure (\<lambda>(cs, c, r, st). rowsBelow cs c r st)") (simp_all add: visit_below)

subsection \<open>The outer loop over the columns terminates\<close>

text \<open>
  The \<open>do ... while (stop)\<close> loop repeats as long as a sweep has visited a position. A
  position weighs \<open>3\<close> to the power of the steps its cell still extends to the right and
  below; a visit moves a position out of the unvisited part of its row and adds at most
  two projections of a third of its weight each.
\<close>

definition weight :: "TableCell list \<Rightarrow> TableCellPosition \<Rightarrow> nat" where
  "weight cs p = 3 ^ (nat (rowspan (cs ! cell p) - 1 - int (offsetRow p))
                    + nat (colspan (cs ! cell p) - 1 - int (offsetColumn p)))"

definition weights :: "TableCell list \<Rightarrow> TableCellPosition list \<Rightarrow> nat" where
  "weights cs ps = sum_list (map (weight cs) ps)"

definition pending :: "TableCell list \<Rightarrow> nat \<Rightarrow> nat \<Rightarrow> TableRowPosition list \<Rightarrow> nat" where
  "pending cs c r rws =
     sum_list (map (\<lambda>rw. weights cs (drop (Suc c) (cellsPosition rw))) (take r rws))
     + sum_list (map (\<lambda>rw. weights cs (drop c (cellsPosition rw))) (drop r rws))"

lemma weight_pos: "0 < weight cs p"
  by (simp add: weight_def)

lemma weight_locate [simp]: "weight cs (locate r c p) = weight cs p"
  by (simp add: weight_def locate_def)

lemma weight_right:
  assumes "int (offsetColumn p) + 1 < colspan (cs ! cell p)"
    and "cell q = cell p" "offsetRow q = offsetRow p" "offsetColumn q = offsetColumn p + 1"
  shows "3 * weight cs q = weight cs p"
proof -
  have "nat (colspan (cs ! cell p) - 1 - int (offsetColumn p))
      = Suc (nat (colspan (cs ! cell p) - 1 - int (offsetColumn q)))"
    using assms by simp
  then show ?thesis using assms by (simp add: weight_def)
qed

lemma weight_down:
  assumes "int (offsetRow p) + 1 < rowspan (cs ! cell p)"
    and "cell q = cell p" "offsetRow q = offsetRow p + 1" "offsetColumn q = offsetColumn p"
  shows "3 * weight cs q = weight cs p"
proof -
  have "nat (rowspan (cs ! cell p) - 1 - int (offsetRow p))
      = Suc (nat (rowspan (cs ! cell p) - 1 - int (offsetRow q)))"
    using assms by simp
  then show ?thesis using assms by (simp add: weight_def)
qed

lemma splice_insert:
  "splice (int n) 0 [q] ps = (if n \<le> length ps then take n ps @ q # drop n ps else ps @ [q])"
  by (simp add: splice_def relIndex_def min_def)

lemma weights_splice_le:
  "weights cs (drop n (splice (int n) 0 [q] ps)) \<le> weights cs (drop n ps) + weight cs q"
  by (simp add: splice_insert weights_def)

lemma spanRight_rows:
  assumes "r < length (rowsS st)"
  shows "\<exists>ps. rowsS (spanRight cs c r p st) = setCellsPosition r ps (rowsS st)
     \<and> 3 * weights cs (drop (Suc c) ps)
          \<le> 3 * weights cs (drop (Suc c) (cellsPosition (rowsS st ! r)))
            + (if int (offsetColumn p) + 1 < colspan (cs ! cell p) then weight cs p else 0)"
proof (cases "int (offsetColumn p) + 1 < colspan (cs ! cell p) \<and> (r, c + 1) \<notin> set (marksS st)")
  case False
  then have "spanRight cs c r p st = st" unfolding spanRight_def by (rule if_not_P)
  moreover have "rowsS st = setCellsPosition r (cellsPosition (rowsS st ! r)) (rowsS st)"
    by (simp add: setCellsPosition_def)
  ultimately show ?thesis by (intro exI [of _ "cellsPosition (rowsS st ! r)"]) simp
next
  case True
  define q where "q = \<lparr>beforeCell = beforeCell p, afterCell = afterCell p, row = cells (rowsS st ! r),
                  cell = cell p, rowIndex = Some (int r), columnIndex = Some (int c),
                  offsetColumn = offsetColumn p + 1, offsetRow = offsetRow p\<rparr>"
  have w: "3 * weight cs q = weight cs p"
    using True by (intro weight_right) (simp_all add: q_def)
  have "rowsS (spanRight cs c r p st)
      = setCellsPosition r (splice (int (Suc c)) 0 [q] (cellsPosition (rowsS st ! r))) (rowsS st)"
    using True by (simp add: spanRight_def Let_def q_def add.commute)
  moreover have "3 * weights cs (drop (Suc c) (splice (int (Suc c)) 0 [q] (cellsPosition (rowsS st ! r))))
      \<le> 3 * weights cs (drop (Suc c) (cellsPosition (rowsS st ! r))) + weight cs p"
    using weights_splice_le [of cs "Suc c" q "cellsPosition (rowsS st ! r)"] w by simp
  ultimately show ?thesis using True by (intro exI) auto
qed

lemma spanDown_rows:
  assumes "r < length (rowsS st)"
  shows "take (Suc r) (rowsS (spanDown cs c r p st)) = take (Suc r) (rowsS st)
     \<and> 3 * sum_list (map (\<lambda>rw. weights cs (drop c (cellsPosition rw)))
                         (drop (Suc r) (rowsS (spanDown cs c r p st))))
          \<le> 3 * sum_list (map (\<lambda>rw. weights cs (drop c (cellsPosition rw))) (drop (Suc r) (rowsS st)))
            + (if int (offsetRow p) + 1 < rowspan (cs ! cell p) then weight cs p else 0)"
proof (cases "int (offsetRow p) + 1 < rowspan (cs ! cell p) \<and> (r + 1, c) \<notin> set (marksS st)")
  case False
  then have "spanDown cs c r p st = st" unfolding spanDown_def by (rule if_not_P)
  then show ?thesis by simp
next
  case True
  define st1 where "st1 = (if r + 1 < length (rowsS st) then st
                    else st\<lparr>rowsS := rowsS st @
                               [(rowsS st ! r)\<lparr>cells := length (arraysS st), cellsPosition := []\<rparr>],
                            arraysS := arraysS st @ [[]]\<rparr>)"
  define nextRow where "nextRow = rowsS st1 ! (r + 1)"
  have len: "Suc r < length (rowsS st1)" using assms by (simp add: st1_def)
  have t1: "take (Suc r) (rowsS st1) = take (Suc r) (rowsS st)"
    using assms by (simp add: st1_def)
  have d2: "drop (Suc (Suc r)) (rowsS st1) = drop (Suc (Suc r)) (rowsS st)"
    using assms by (simp add: st1_def)
  have n1: "weights cs (drop c (cellsPosition nextRow))
      \<le> sum_list (map (\<lambda>rw. weights cs (drop c (cellsPosition rw))) (drop (Suc r) (rowsS st)))
        - sum_list (map (\<lambda>rw. weights cs (drop c (cellsPosition rw))) (drop (Suc (Suc r)) (rowsS st)))"
  proof (cases "Suc r < length (rowsS st)")
    case True
    then show ?thesis by (simp add: nextRow_def st1_def Cons_nth_drop_Suc [symmetric])
  next
    case False
    then have "nextRow = (rowsS st ! r)\<lparr>cells := length (arraysS st), cellsPosition := []\<rparr>"
      using assms by (simp add: nextRow_def st1_def nth_append)
    then show ?thesis by (simp add: weights_def)
  qed
  have n2: "sum_list (map (\<lambda>rw. weights cs (drop c (cellsPosition rw))) (drop (Suc (Suc r)) (rowsS st)))
      \<le> sum_list (map (\<lambda>rw. weights cs (drop c (cellsPosition rw))) (drop (Suc r) (rowsS st)))"
    by (cases "Suc r < length (rowsS st)") (simp_all add: Cons_nth_drop_Suc [symmetric])
  obtain q where sd: "rowsS (spanDown cs c r p st) =
      setCellsPosition (r + 1) (splice (int c) 0 [q] (cellsPosition nextRow)) (rowsS st1)"
    and q: "cell q = cell p" "offsetRow q = offsetRow p + 1" "offsetColumn q = offsetColumn p"
    using True by (simp add: spanDown_def Let_def st1_def nextRow_def)
  have w: "3 * weight cs q = weight cs p"
    using True q by (intro weight_down) simp_all
  have tk: "take (Suc r) (rowsS (spanDown cs c r p st)) = take (Suc r) (rowsS st)"
    by (simp add: sd setCellsPosition_def t1)
  have "sum_list (map (\<lambda>rw. weights cs (drop c (cellsPosition rw)))
                         (drop (Suc r) (rowsS (spanDown cs c r p st))))
      = weights cs (drop c (splice (int c) 0 [q] (cellsPosition nextRow)))
        + sum_list (map (\<lambda>rw. weights cs (drop c (cellsPosition rw))) (drop (Suc (Suc r)) (rowsS st)))"
    using len by (simp add: sd setCellsPosition_def Cons_nth_drop_Suc [symmetric] d2)
  also have "\<dots> \<le> weights cs (drop c (cellsPosition nextRow)) + weight cs q
        + sum_list (map (\<lambda>rw. weights cs (drop c (cellsPosition rw))) (drop (Suc (Suc r)) (rowsS st)))"
    using weights_splice_le [of cs c q "cellsPosition nextRow"] by simp
  also have "\<dots> \<le> sum_list (map (\<lambda>rw. weights cs (drop c (cellsPosition rw))) (drop (Suc r) (rowsS st)))
        + weight cs q"
    using n1 n2 by simp
  finally show ?thesis using tk w True by simp
qed

lemma pending_Suc:
  assumes "r < length rws"
  shows "pending cs c r rws + weights cs (drop (Suc c) (cellsPosition (rws ! r)))
       = pending cs c (Suc r) rws + weights cs (drop c (cellsPosition (rws ! r)))"
  using assms by (simp add: pending_def take_Suc_conv_app_nth Cons_nth_drop_Suc [symmetric])

lemma visit_pending_arith:
  fixes T w1 w2 d d3 W :: nat
  assumes "3 * w2 \<le> 3 * w1 + (if A then W else 0)"
    and "3 * d3 \<le> 3 * d + (if B then W else 0)"
    and "0 < W" and "A \<or> B \<Longrightarrow> 3 \<le> W"
  shows "T + w2 + d3 + 1 \<le> T + (W + w1) + d"
  using assms by (cases A; cases B) simp_all

lemma visit_pending:
  assumes "r < length (rowsS st)"
  shows "pending cs c (Suc r) (rowsS (visit cs c r st))
           + (if c < length (cellsPosition (rowsS st ! r)) then 1 else 0)
         \<le> pending cs c r (rowsS st)"
proof (cases "c < length (cellsPosition (rowsS st ! r))")
  case False
  then have "weights cs (drop (Suc c) (cellsPosition (rowsS st ! r))) = 0"
    "weights cs (drop c (cellsPosition (rowsS st ! r))) = 0"
    by (simp_all add: weights_def)
  then show ?thesis using False pending_Suc [OF assms, of cs c] by (simp add: visit_def)
next
  case True
  define ps where "ps = cellsPosition (rowsS st ! r)"
  define p where "p = locate r c (ps ! c)"
  define st1 where "st1 = st\<lparr>rowsS := setCellsPosition r (ps[c := p]) (rowsS st)\<rparr>"
  define st2 where "st2 = spanRight cs c r p st1"
  define st3 where "st3 = spanDown cs c r p st2"
  have v: "rowsS (visit cs c r st) = rowsS st3"
    using True by (simp add: visit_def Let_def ps_def p_def st1_def st2_def st3_def)
  have l1: "r < length (rowsS st1)" using assms by (simp add: st1_def)
  have l2: "r < length (rowsS st2)" using assms by (simp add: st2_def st1_def)
  have r1: "cellsPosition (rowsS st1 ! r) = ps[c := p]"
    using assms by (simp add: st1_def setCellsPosition_def)
  obtain ps2 where r2: "rowsS st2 = setCellsPosition r ps2 (rowsS st1)"
    and w2: "3 * weights cs (drop (Suc c) ps2)
          \<le> 3 * weights cs (drop (Suc c) (ps[c := p]))
            + (if int (offsetColumn p) + 1 < colspan (cs ! cell p) then weight cs p else 0)"
    using spanRight_rows [OF l1, of cs c p] unfolding st2_def r1 by blast
  have r3: "take (Suc r) (rowsS st3) = take (Suc r) (rowsS st2)"
    and w3: "3 * sum_list (map (\<lambda>rw. weights cs (drop c (cellsPosition rw))) (drop (Suc r) (rowsS st3)))
          \<le> 3 * sum_list (map (\<lambda>rw. weights cs (drop c (cellsPosition rw))) (drop (Suc r) (rowsS st2)))
            + (if int (offsetRow p) + 1 < rowspan (cs ! cell p) then weight cs p else 0)"
    using spanDown_rows [OF l2, of cs c p] unfolding st3_def by blast+
  have t2: "take (Suc r) (rowsS st2) = take r (rowsS st) @ [(rowsS st ! r)\<lparr>cellsPosition := ps2\<rparr>]"
    using assms by (simp add: r2 st1_def setCellsPosition_def take_Suc_conv_app_nth)
  have d2: "drop (Suc r) (rowsS st2) = drop (Suc r) (rowsS st)"
    by (simp add: r2 st1_def setCellsPosition_def)
  have wp: "weights cs (drop c ps) = weight cs p + weights cs (drop (Suc c) (ps[c := p]))"
    using True by (simp add: ps_def weights_def p_def Cons_nth_drop_Suc [symmetric])
  have big: "3 \<le> weight cs p"
    if "int (offsetColumn p) + 1 < colspan (cs ! cell p) \<or> int (offsetRow p) + 1 < rowspan (cs ! cell p)"
  proof -
    have "1 \<le> nat (rowspan (cs ! cell p) - 1 - int (offsetRow p))
                    + nat (colspan (cs ! cell p) - 1 - int (offsetColumn p))"
      using that by linarith
    then have "(3::nat) ^ 1 \<le> weight cs p"
      unfolding weight_def by (intro power_increasing) simp_all
    then show ?thesis by simp
  qed
  have "pending cs c (Suc r) (rowsS st3)
      = sum_list (map (\<lambda>rw. weights cs (drop (Suc c) (cellsPosition rw))) (take r (rowsS st)))
        + weights cs (drop (Suc c) ps2)
        + sum_list (map (\<lambda>rw. weights cs (drop c (cellsPosition rw))) (drop (Suc r) (rowsS st3)))"
    by (simp add: pending_def r3 t2)
  moreover have "pending cs c r (rowsS st)
      = sum_list (map (\<lambda>rw. weights cs (drop (Suc c) (cellsPosition rw))) (take r (rowsS st)))
        + weights cs (drop c ps)
        + sum_list (map (\<lambda>rw. weights cs (drop c (cellsPosition rw))) (drop (Suc r) (rowsS st)))"
    using assms by (simp add: pending_def ps_def Cons_nth_drop_Suc [symmetric])
  ultimately show ?thesis
    using visit_pending_arith [OF w2 w3 [unfolded d2] weight_pos [of cs p] big] True
    by (simp add: v wp)
qed

lemma visit_stop:
  "stopS (visit cs c r st) = (stopS st \<or> c < length (cellsPosition (rowsS st ! r)))"
  by (simp add: visit_def Let_def)

declare sweepRows.simps [simp del]

lemma sweepRows_pending_arith:
  fixes a b d :: nat
  assumes "a + (if F \<and> \<not> (S \<or> L) then 1 else 0) \<le> b"
    and "b + (if L then 1 else 0) \<le> d"
  shows "a + (if F \<and> \<not> S then 1 else 0) \<le> d"
  using assms by (cases F; cases S; cases L) simp_all

lemma sweepRows_pending:
  "pending cs c (length (rowsS (sweepRows cs c r st))) (rowsS (sweepRows cs c r st))
     + (if stopS (sweepRows cs c r st) \<and> \<not> stopS st then 1 else 0)
   \<le> pending cs c r (rowsS st)"
proof (induction cs c r st rule: sweepRows.induct)
  case (1 cs c r st)
  show ?case
  proof (cases "r < length (rowsS st)")
    case False
    then have "sweepRows cs c r st = st" by (subst sweepRows.simps) simp
    then show ?thesis using False by (simp add: pending_def)
  next
    case True
    have eq: "sweepRows cs c r st = sweepRows cs c (r + 1) (visit cs c r st)"
      using True by (subst sweepRows.simps) simp
    have ih: "pending cs c (length (rowsS (sweepRows cs c (r + 1) (visit cs c r st))))
            (rowsS (sweepRows cs c (r + 1) (visit cs c r st)))
         + (if stopS (sweepRows cs c (r + 1) (visit cs c r st))
               \<and> \<not> (stopS st \<or> c < length (cellsPosition (rowsS st ! r))) then 1 else 0)
        \<le> pending cs c (Suc r) (rowsS (visit cs c r st))"
      using "1.IH" [OF True] unfolding visit_stop by simp
    show ?thesis
      unfolding eq by (rule sweepRows_pending_arith [OF ih visit_pending [OF True]])
  qed
qed

text \<open>The outer loop: \<open>do { stop = false; ...; columnIndex++ } while (stop)\<close>.\<close>

function sweepColumns :: "TableCell list \<Rightarrow> nat \<Rightarrow> SerializeState \<Rightarrow> SerializeState" where
  "sweepColumns cs c st =
     (let st' = sweepRows cs c 0 (st\<lparr>stopS := False\<rparr>)
      in if stopS st' then sweepColumns cs (c + 1) st' else st')"
  by pat_completeness auto
termination
proof (relation "measure (\<lambda>(cs, c, st). pending cs c 0 (rowsS st))")
  show "wf (measure (\<lambda>(cs, c, st). pending cs c 0 (rowsS st)))" by simp
next
  fix cs c st st'
  assume a: "st' = sweepRows cs c 0 (st\<lparr>stopS := False\<rparr>)" and s: "stopS st'"
  have "pending cs (c + 1) 0 (rowsS st') = pending cs c (length (rowsS st')) (rowsS st')"
    by (simp add: pending_def)
  then show "((cs, c + 1, st'), cs, c, st) \<in> measure (\<lambda>(cs, c, st). pending cs c 0 (rowsS st))"
    using sweepRows_pending [of cs c 0 "st\<lparr>stopS := False\<rparr>"] a s by simp
qed

declare sweepColumns.simps [simp del]

text \<open>
  \<open>serialize\<close> returns the matrix; the component comes back with the row arrays that were
  created for matrix rows without a row in \<open>bodies\<close> (they are reachable from the matrix
  only).
\<close>

definition serialize :: "TableComponent \<Rightarrow> TableRowPosition list \<times> TableComponent" where
  "serialize t =
     (let st = sweepColumns (cellsH t) 0
                 \<lparr>rowsS = map (seedRow t) [0..<length (bodies t)], marksS = [],
                  stopS = False, arraysS = rowsH t\<rparr>
      in (rowsS st, t\<lparr>rowsH := arraysS st\<rparr>))"

section \<open>The rectangle normalizer: \<open>selectCells\<close> and \<open>selectCellsByRange\<close>\<close>

record TableRange =
  startCellPosition :: TableCellPosition
  endCellPosition :: TableCellPosition
  selectedCells :: "nat list"

text \<open>
  The four overflow amounts \<open>(x1, y1, x2, y2)\<close> of \<open>selectCellsByRange\<close>. They are
  numbers when \<open>0 \<le> minRow \<le> maxRow < cellMatrix.length\<close>, \<open>minColumn \<le> maxColumn\<close> and
  both columns index every row of the range. In every other case the source ends in a
  \<open>TypeError\<close>: a property of \<open>undefined\<close> is read at once, or \<open>Math.max()\<close> of an empty
  slice is \<open>-Infinity\<close>, the recursive call receives infinite indices and reads
  \<open>cellMatrix[Infinity].cellsPosition\<close> at the latest two calls later. That case is \<open>None\<close>.
\<close>

definition overflows ::
  "TableCell list \<Rightarrow> TableRowPosition list \<Rightarrow> int \<Rightarrow> int \<Rightarrow> int \<Rightarrow> int
     \<Rightarrow> (int \<times> int \<times> int \<times> int) option" where
  "overflows cs cellMatrix minRow minColumn maxRow maxColumn =
     (let rws = slice minRow (maxRow + 1) cellMatrix in
      if 0 \<le> minRow \<and> minRow \<le> maxRow \<and> maxRow < int (length cellMatrix)
         \<and> minColumn \<le> maxColumn
         \<and> (\<forall>rw \<in> set rws. 0 \<le> minColumn \<and> maxColumn < int (length (cellsPosition rw)))
      then
        (let x1 = - Max (set (map (\<lambda>rw. int (offsetColumn (cellsPosition rw ! nat minColumn))) rws));
             x2 = Max (set (map (\<lambda>rw. colspan (cs ! cell (cellsPosition rw ! nat maxColumn))
                                   - (int (offsetColumn (cellsPosition rw ! nat maxColumn)) + 1)) rws));
             y1 = - Max (set (map (\<lambda>p. int (offsetRow p))
                     (slice minColumn (maxColumn + 1) (cellsPosition (cellMatrix ! nat minRow)))));
             y2 = Max (set (map (\<lambda>p. rowspan (cs ! cell p) - (int (offsetRow p) + 1))
                     (slice minColumn (maxColumn + 1) (cellsPosition (cellMatrix ! nat maxRow)))))
         in Some (x1, y1, x2, y2))
      else None)"

text \<open>
  The part of \<open>selectCellsByRange\<close> after the recursion: the corner positions and the
  fragments of the cells between them. \<open>reduce\<close> without an initial value throws on an
  empty array.
\<close>

definition selectedRange ::
  "TableCell list \<Rightarrow> TableRowPosition list \<Rightarrow> int \<Rightarrow> int \<Rightarrow> int \<Rightarrow> int
     \<Rightarrow> error + TableRange" where
  "selectedRange cs cellMatrix minRow minColumn maxRow maxColumn =
     (let startCellPosition = cellsPosition (cellMatrix ! nat minRow) ! nat minColumn;
          endCellPosition = cellsPosition (cellMatrix ! nat maxRow) ! nat maxColumn;
          rws = slice (toNumber (rowIndex startCellPosition))
                  (toNumber (rowIndex endCellPosition) + 1) cellMatrix
      in if rws = [] then Inl TypeError
         else Inr \<lparr>startCellPosition = startCellPosition, endCellPosition = endCellPosition,
                   selectedCells = distinctValues (map (\<lambda>p. fragment (cs ! cell p))
                     (concat (map (\<lambda>rw. slice (toNumber (columnIndex startCellPosition))
                        (toNumber (columnIndex endCellPosition) + 1) (cellsPosition rw)) rws)))\<rparr>)"

text \<open>
  \<open>selectCellsByRange\<close> recurses until the four amounts are zero. The recursion need not
  end on an arbitrary matrix (the source then overflows its stack), so the result is an
  option: \<open>None\<close> is a call that never returns.
\<close>

partial_function (option) selectCellsByRange ::
  "TableCell list \<Rightarrow> TableRowPosition list \<Rightarrow> int \<Rightarrow> int \<Rightarrow> int \<Rightarrow> int
     \<Rightarrow> (error + TableRange) option" where
  "selectCellsByRange cs cellMatrix minRow minColumn maxRow maxColumn =
     (case overflows cs cellMatrix minRow minColumn maxRow maxColumn of
        None \<Rightarrow> Some (Inl TypeError)
      | Some (x1, y1, x2, y2) \<Rightarrow>
          if x1 \<noteq> 0 \<or> y1 \<noteq> 0 \<or> x2 \<noteq> 0 \<or> y2 \<noteq> 0
          then selectCellsByRange cs cellMatrix (minRow + y1) (minColumn + x1)
                 (maxRow + y2) (maxColumn + x2)
          else Some (selectedRange cs cellMatrix minRow minColumn maxRow maxColumn))"

declare selectCellsByRange.simps [code]

record TableCellRect =
  minRow :: int
  maxRow :: int
  minColumn :: int
  maxColumn :: int

text \<open>
  \<open>findCellPosition\<close>: the first and the last matrix coordinate, in row-major order,
  whose cell holds the fragment; all four fields are \<open>undefined\<close> (here \<open>None\<close>) when no
  position holds it.
\<close>

definition findCellPosition ::
  "TableCell list \<Rightarrow> TableRowPosition list \<Rightarrow> nat \<Rightarrow> TableCellRect option" where
  "findCellPosition cs cellMatrix f =
     (let hits = concat (map (\<lambda>(i, rw).
                   map (\<lambda>(j, p). (i, j))
                     (filter (\<lambda>(j, p). fragment (cs ! cell p) = f)
                        (enumerate 0 (cellsPosition rw))))
                   (enumerate 0 cellMatrix))
      in if hits = [] then None
         else Some \<lparr>minRow = int (fst (hd hits)), maxRow = int (fst (last hits)),
                    minColumn = int (snd (hd hits)), maxColumn = int (snd (last hits))\<rparr>)"

text \<open>
  \<open>selectCells\<close>. With a fragment that no position holds, the four bounds are \<open>NaN\<close> and
  \<open>selectCellsByRange\<close> reads \<open>cellMatrix[NaN].cellsPosition\<close>: a \<open>TypeError\<close>.
\<close>

definition selectCells ::
  "nat \<Rightarrow> nat \<Rightarrow> TableComponent \<Rightarrow> ((error + TableRange) \<times> TableComponent) option" where
  "selectCells startCell endCell t =
     (let (cellMatrix, t') = serialize t in
      case (findCellPosition (cellsH t') cellMatrix startCell,
            findCellPosition (cellsH t') cellMatrix endCell) of
        (Some p1, Some p2) \<Rightarrow>
          map_option (\<lambda>res. (res, t'))
            (selectCellsByRange (cellsH t') cellMatrix
               (min (minRow p1) (minRow p2)) (min (minColumn p1) (minColumn p2))
               (max (maxRow p1) (maxRow p2)) (max (maxColumn p1) (maxColumn p2)))
      | _ \<Rightarrow> Some (Inl TypeError, t'))"

section \<open>The structural edit commands: \<open>TableEditCommander\<close>\<close>

datatype TableEditActions =
    AddColumnToLeft | AddColumnToRight | AddRowToTop | AddRowToBottom | MergeCells
  | SplitCells | DeleteTopRow | DeleteBottomRow | DeleteLeftColumn | DeleteRightColumn

text \<open>
  \<open>TableEditRange\<close> holds two references to position objects, and the commands assign to
  their fields. \<open>Shared p\<close> is a range whose \<open>startPosition\<close> and \<open>endPosition\<close> are one object
  (as \<open>selectCells\<close> returns for a single position), \<open>Separate s e\<close> a range of two objects.
  An assignment through either reference of a shared object is seen through both.
\<close>

datatype TableEditRange = Shared TableCellPosition | Separate TableCellPosition TableCellPosition

fun startPosition :: "TableEditRange \<Rightarrow> TableCellPosition" where
  "startPosition (Shared p) = p"
| "startPosition (Separate s e) = s"

fun endPosition :: "TableEditRange \<Rightarrow> TableCellPosition" where
  "endPosition (Shared p) = p"
| "endPosition (Separate s e) = e"

fun updateStart :: "(TableCellPosition \<Rightarrow> TableCellPosition) \<Rightarrow> TableEditRange \<Rightarrow> TableEditRange" where
  "updateStart f (Shared p) = Shared (f p)"
| "updateStart f (Separate s e) = Separate (f s) e"

fun updateEnd :: "(TableCellPosition \<Rightarrow> TableCellPosition) \<Rightarrow> TableEditRange \<Rightarrow> TableEditRange" where
  "updateEnd f (Shared p) = Shared (f p)"
| "updateEnd f (Separate s e) = Separate s (f e)"

text \<open>\<open>params\<close> is \<open>None\<close> until \<open>setEditRange\<close> is called; reading it then throws.\<close>

record TableEditCommander =
  recordHistory :: bool
  params :: "TableEditRange option"

definition setEditRange :: "TableEditRange \<Rightarrow> TableEditCommander \<Rightarrow> TableEditCommander" where
  "setEditRange v cmd = cmd\<lparr>params := Some v\<rparr>"

text \<open>
  \<open>createCell(rowspan, colspan)\<close>: a new cell object with a new fragment holding one
  \<open>BrComponent\<close>. The result is the reference of the cell.
\<close>

definition createCell :: "int \<Rightarrow> int \<Rightarrow> TableComponent \<Rightarrow> nat \<times> TableComponent" where
  "createCell rs cs t =
     (length (cellsH t),
      t\<lparr>cellsH := cellsH t @ [\<lparr>colspan = cs, rowspan = rs, fragment = length (fragsH t)\<rparr>],
        fragsH := fragsH t @ [[BrComponent]]\<rparr>)"

definition updateRow :: "nat \<Rightarrow> (nat list \<Rightarrow> nat list) \<Rightarrow> TableComponent \<Rightarrow> TableComponent" where
  "updateRow r f t = t\<lparr>rowsH := (rowsH t)[r := f (rowsH t ! r)]\<rparr>"

definition updateCell :: "nat \<Rightarrow> (TableCell \<Rightarrow> TableCell) \<Rightarrow> TableComponent \<Rightarrow> TableComponent" where
  "updateCell k f t = t\<lparr>cellsH := (cellsH t)[k := f (cellsH t ! k)]\<rparr>"

text \<open>
  The closing \<open>if (startPosition.cell === endPosition.cell) ... else ...\<close> of the insert and
  delete commands: the index of the start position moves, and the index of the end
  position too when the two positions hold different cells. \<open>null\<close> counts as \<open>0\<close>.
\<close>

definition shiftColumnIndex :: "int \<Rightarrow> TableEditRange \<Rightarrow> TableEditRange" where
  "shiftColumnIndex d rng =
     (let f = (\<lambda>p. p\<lparr>columnIndex := Some (toNumber (columnIndex p) + d)\<rparr>) in
      if cell (startPosition rng) = cell (endPosition rng) then updateStart f rng
      else updateEnd f (updateStart f rng))"

definition shiftRowIndex :: "int \<Rightarrow> TableEditRange \<Rightarrow> TableEditRange" where
  "shiftRowIndex d rng =
     (let f = (\<lambda>p. p\<lparr>rowIndex := Some (toNumber (rowIndex p) + d)\<rparr>) in
      if cell (startPosition rng) = cell (endPosition rng) then updateStart f rng
      else updateEnd f (updateStart f rng))"

subsection \<open>Inserting columns and rows\<close>

definition addColumnToLeftRow ::
  "int option \<Rightarrow> TableRowPosition \<Rightarrow> TableComponent \<Rightarrow> error + TableComponent" where
  "addColumnToLeftRow index rw t =
     (case element (cellsPosition rw) index of
        None \<Rightarrow> Inl TypeError
      | Some p \<Rightarrow>
          if index = Some 0 then
            (let (n, t') = createCell 1 1 t in Inr (updateRow (row p) (\<lambda>xs. n # xs) t'))
          else if offsetColumn p = 0 then
            (let i = indexOf (rowsH t ! row p) (cell p); (n, t') = createCell 1 1 t
             in Inr (updateRow (row p) (splice i 0 [n]) t'))
          else if offsetRow p = 0 then
            Inr (updateCell (cell p) (\<lambda>k. k\<lparr>colspan := colspan k + 1\<rparr>) t)
          else Inr t)"

definition addColumnToLeft ::
  "TableEditCommander \<Rightarrow> TableComponent \<Rightarrow> error + TableEditCommander \<times> TableComponent" where
  "addColumnToLeft cmd t =
     (let (cellMatrix, t1) = serialize t in
      case params cmd of
        None \<Rightarrow> Inl TypeError
      | Some rng \<Rightarrow>
          (case forEach (addColumnToLeftRow (columnIndex (startPosition rng))) cellMatrix t1 of
             Inl e \<Rightarrow> Inl e
           | Inr t2 \<Rightarrow> Inr (cmd\<lparr>params := Some (shiftColumnIndex 1 rng)\<rparr>, t2)))"

definition addColumnToRightRow ::
  "int option \<Rightarrow> TableRowPosition \<Rightarrow> TableComponent \<Rightarrow> error + TableComponent" where
  "addColumnToRightRow index rw t =
     (case element (cellsPosition rw) index of
        None \<Rightarrow> Inl TypeError
      | Some p \<Rightarrow>
          if int (offsetColumn p) + 1 < colspan (cellsH t ! cell p) then
            (if offsetRow p = 0
             then Inr (updateCell (cell p) (\<lambda>k. k\<lparr>colspan := colspan k + 1\<rparr>) t)
             else Inr t)
          else
            (let i = indexOf (rowsH t ! row p) (cell p); (n, t') = createCell 1 1 t
             in Inr (updateRow (row p) (splice (i + 1) 0 [n]) t')))"

definition addColumnToRight ::
  "TableEditCommander \<Rightarrow> TableComponent \<Rightarrow> error + TableEditCommander \<times> TableComponent" where
  "addColumnToRight cmd t =
     (let (cellMatrix, t1) = serialize t in
      case params cmd of
        None \<Rightarrow> Inl TypeError
      | Some rng \<Rightarrow>
          (case forEach (addColumnToRightRow (columnIndex (endPosition rng))) cellMatrix t1 of
             Inl e \<Rightarrow> Inl e
           | Inr t2 \<Rightarrow> Inr (cmd, t2)))"

text \<open>The callbacks that fill the new row \<open>tr\<close>; the state is \<open>tr\<close> and the component.\<close>

definition pushNewCell :: "nat list \<times> TableComponent \<Rightarrow> nat list \<times> TableComponent" where
  "pushNewCell = (\<lambda>(tr, t). let (n, t') = createCell 1 1 t in (tr @ [n], t'))"

definition addRowToTopCell ::
  "TableCellPosition \<Rightarrow> nat list \<times> TableComponent \<Rightarrow> nat list \<times> TableComponent" where
  "addRowToTopCell p = (\<lambda>(tr, t).
     if offsetRow p > 0 then
       (if offsetColumn p = 0
        then (tr, updateCell (cell p) (\<lambda>k. k\<lparr>rowspan := rowspan k + 1\<rparr>) t)
        else (tr, t))
     else pushNewCell (tr, t))"

definition addRowToBottomCell ::
  "TableCellPosition \<Rightarrow> nat list \<times> TableComponent \<Rightarrow> nat list \<times> TableComponent" where
  "addRowToBottomCell p = (\<lambda>(tr, t).
     if int (offsetRow p) < rowspan (cellsH t ! cell p) - 1 then
       (if offsetColumn p = 0
        then (tr, updateCell (cell p) (\<lambda>k. k\<lparr>rowspan := rowspan k + 1\<rparr>) t)
        else (tr, t))
     else pushNewCell (tr, t))"

text \<open>\<open>bodies.splice(bodies.indexOf(cells) + d, 0, tr)\<close> for the new array \<open>tr\<close>.\<close>

definition insertRow :: "nat \<Rightarrow> int \<Rightarrow> nat list \<Rightarrow> TableComponent \<Rightarrow> TableComponent" where
  "insertRow r d tr t =
     t\<lparr>rowsH := rowsH t @ [tr],
       bodies := splice (indexOf (bodies t) r + d) 0 [length (rowsH t)] (bodies t)\<rparr>"

definition addRowToTop ::
  "TableEditCommander \<Rightarrow> TableComponent \<Rightarrow> error + TableEditCommander \<times> TableComponent" where
  "addRowToTop cmd t =
     (let (cellMatrix, t1) = serialize t in
      case params cmd of
        None \<Rightarrow> Inl TypeError
      | Some rng \<Rightarrow>
          (let index = rowIndex (startPosition rng) in
           case element cellMatrix index of
             None \<Rightarrow> Inl TypeError
           | Some rw \<Rightarrow>
               (let (tr, t2) =
                      (if index = Some 0
                       then each (\<lambda>_. pushNewCell) (rowsH t1 ! cells rw) ([], t1)
                       else each addRowToTopCell (cellsPosition rw) ([], t1))
                in Inr (cmd\<lparr>params := Some (shiftRowIndex 1 rng)\<rparr>,
                        insertRow (cells rw) 0 tr t2))))"

definition addRowToBottom ::
  "TableEditCommander \<Rightarrow> TableComponent \<Rightarrow> error + TableEditCommander \<times> TableComponent" where
  "addRowToBottom cmd t =
     (let (cellMatrix, t1) = serialize t in
      case params cmd of
        None \<Rightarrow> Inl TypeError
      | Some rng \<Rightarrow>
          (case element cellMatrix (rowIndex (endPosition rng)) of
             None \<Rightarrow> Inl TypeError
           | Some rw \<Rightarrow>
               (let (tr, t2) = each addRowToBottomCell (cellsPosition rw) ([], t1)
                in Inr (cmd, insertRow (cells rw) 1 tr t2))))"

subsection \<open>Merging and splitting cells\<close>

text \<open>
  The callback of \<open>selectedCells.forEach\<close> in \<open>mergeCells\<close>: the cell leaves its row array,
  and a row array that is empty afterwards leaves \<open>bodies\<close>.
\<close>

definition mergeCellsRemove :: "TableCellPosition \<Rightarrow> TableComponent \<Rightarrow> TableComponent" where
  "mergeCellsRemove p t =
     (let index = indexOf (rowsH t ! row p) (cell p) in
      if index > - 1 then
        (let t' = updateRow (row p) (splice index 1 []) t in
         if rowsH t' ! row p = []
         then t'\<lparr>bodies := splice (indexOf (bodies t') (row p)) 1 [] (bodies t')\<rparr>
         else t')
      else t)"

text \<open>
  The \<open>selectedCells\<close> of \<open>mergeCells\<close>: the positions of the rectangle that start a cell,
  row by row. \<open>reduce\<close> without an initial value throws on an empty slice of rows.
\<close>

definition mergeSelection ::
  "TableEditRange \<Rightarrow> TableRowPosition list \<Rightarrow> error + TableCellPosition list" where
  "mergeSelection rng cellMatrix =
     (let minRow' = toNumber (rowIndex (startPosition rng));
          minColumn' = toNumber (columnIndex (startPosition rng));
          maxRow' = toNumber (rowIndex (endPosition rng));
          maxColumn' = toNumber (columnIndex (endPosition rng));
          rws = slice minRow' (maxRow' + 1) cellMatrix
      in if rws = [] then Inl TypeError
         else Inr (concat (map (\<lambda>rw. filter (\<lambda>p. offsetRow p = 0 \<and> offsetColumn p = 0)
                                  (slice minColumn' (maxColumn' + 1) (cellsPosition rw))) rws)))"

text \<open>
  The first half of \<open>mergeCells\<close>, up to the end of the \<open>forEach\<close>: the first selected
  position (\<open>shift\<close>) gets the spans of the rectangle, the others are removed.
  \<open>newNode.cell\<close> throws when nothing is selected. The result carries the fragment of
  \<open>newNode\<close>.
\<close>

definition mergeCellsStore ::
  "TableEditRange \<Rightarrow> TableRowPosition list \<Rightarrow> TableComponent \<Rightarrow> error + nat \<times> TableComponent" where
  "mergeCellsStore rng cellMatrix t =
     (case mergeSelection rng cellMatrix of
        Inl e \<Rightarrow> Inl e
      | Inr [] \<Rightarrow> Inl TypeError
      | Inr (newNode # others) \<Rightarrow>
          (let t1 = updateCell (cell newNode)
                      (\<lambda>k. k\<lparr>rowspan := toNumber (rowIndex (endPosition rng))
                                          - toNumber (rowIndex (startPosition rng)) + 1,
                             colspan := toNumber (columnIndex (endPosition rng))
                                          - toNumber (columnIndex (startPosition rng)) + 1\<rparr>) t;
               t2 = each mergeCellsRemove others t1
           in Inr (fragment (cellsH t2 ! cell newNode), t2)))"

text \<open>
  \<open>mergeCells\<close>. The calls on the editor's text selection between the two halves belong to
  \<open>TBSelection\<close>, outside the table model, and are left out. The second half selects the
  merged cell again and copies the two corner positions into the objects of \<open>params\<close>
  (\<open>Object.assign\<close>).
\<close>

definition mergeCells ::
  "TableEditCommander \<Rightarrow> TableComponent
     \<Rightarrow> (error + TableEditCommander \<times> TableComponent) option" where
  "mergeCells cmd t =
     (let (cellMatrix, t1) = serialize t in
      case params cmd of
        None \<Rightarrow> Some (Inl TypeError)
      | Some rng \<Rightarrow>
          (case mergeCellsStore rng cellMatrix t1 of
             Inl e \<Rightarrow> Some (Inl e)
           | Inr (f, t2) \<Rightarrow>
               (case selectCells f f t2 of
                  None \<Rightarrow> None
                | Some (Inl e, t3) \<Rightarrow> Some (Inl e)
                | Some (Inr res, t3) \<Rightarrow>
                    Some (Inr (cmd\<lparr>params := Some (updateEnd (\<lambda>_. endCellPosition res)
                                   (updateStart (\<lambda>_. startCellPosition res) rng))\<rparr>, t3)))))"

text \<open>The callback of \<open>forEach\<close> in \<open>splitCells\<close>, without the calls on the text selection.\<close>

definition splitCellsCell :: "TableCellPosition \<Rightarrow> TableComponent \<Rightarrow> TableComponent" where
  "splitCellsCell p t =
     (if offsetRow p \<noteq> 0 \<or> offsetColumn p \<noteq> 0 then
        (let t1 = updateCell (cell p) (\<lambda>k. k\<lparr>colspan := 1, rowspan := 1\<rparr>) t;
             (n, t2) = createCell 1 1 t1;
             t3 = (if row p \<in> set (bodies t2) then t2
                   else t2\<lparr>bodies := splice (toNumber (rowIndex p)) 0 [row p] (bodies t2)\<rparr>)
         in case afterCell p of
              Some a \<Rightarrow>
                updateRow (row p) (\<lambda>xs. splice (indexOf xs (cell p) + 1) 0 [n] xs) t3
            | None \<Rightarrow> updateRow (row p) (\<lambda>xs. xs @ [n]) t3)
      else t)"

definition splitCells ::
  "TableEditCommander \<Rightarrow> TableComponent \<Rightarrow> error + TableEditCommander \<times> TableComponent" where
  "splitCells cmd t =
     (let (cellMatrix, t1) = serialize t in
      case params cmd of
        None \<Rightarrow> Inl TypeError
      | Some rng \<Rightarrow>
          (let minRow' = toNumber (rowIndex (startPosition rng));
               minColumn' = toNumber (columnIndex (startPosition rng));
               maxRow' = toNumber (rowIndex (endPosition rng));
               maxColumn' = toNumber (columnIndex (endPosition rng))
           in Inr (cmd, each splitCellsCell
                          (concat (map (\<lambda>rw. slice minColumn' (maxColumn' + 1) (cellsPosition rw))
                                     (slice minRow' (maxRow' + 1) cellMatrix))) t1)))"

subsection \<open>Deleting rows and columns\<close>

text \<open>
  The replacement of a cell that starts in the deleted row: a new cell of \<open>rowspan - 1\<close>
  rows and the same \<open>colspan\<close>, put into the row array of \<open>newPosition\<close> before its
  \<open>afterCell\<close>, or at the end when it has none.
\<close>

definition replaceBelow ::
  "TableCellPosition \<Rightarrow> TableCellPosition option \<Rightarrow> TableComponent \<Rightarrow> error + TableComponent" where
  "replaceBelow p newPosition t =
     (let (n, t') = createCell (rowspan (cellsH t ! cell p) - 1) (colspan (cellsH t ! cell p)) t in
      case newPosition of
        None \<Rightarrow> Inl TypeError
      | Some q \<Rightarrow>
          (case afterCell q of
             Some a \<Rightarrow> Inr (updateRow (row q) (\<lambda>xs. splice (indexOf xs a) 0 [n] xs) t')
           | None \<Rightarrow> Inr (updateRow (row q) (\<lambda>xs. xs @ [n]) t')))"

text \<open>\<open>cellMatrix[i].cellsPosition[j]\<close> as \<open>replaceBelow\<close> receives it; \<open>None\<close> is \<open>undefined\<close>.\<close>

definition positionAt ::
  "TableRowPosition list \<Rightarrow> int option \<Rightarrow> nat \<Rightarrow> (error + TableCellPosition option)" where
  "positionAt cellMatrix i j =
     (case element cellMatrix i of
        None \<Rightarrow> Inl TypeError
      | Some rw \<Rightarrow> Inr (element (cellsPosition rw) (Some (int j))))"

definition deleteTopRowCell ::
  "TableRowPosition list \<Rightarrow> int option \<Rightarrow> nat \<times> TableCellPosition \<Rightarrow> TableComponent
     \<Rightarrow> error + TableComponent" where
  "deleteTopRowCell cellMatrix index = (\<lambda>(cellIndex, p) t.
     if offsetColumn p = 0 then
       (if offsetRow p = 0 \<and> rowspan (cellsH t ! cell p) > 1 then
          (case positionAt cellMatrix index cellIndex of
             Inl e \<Rightarrow> Inl e
           | Inr newPosition \<Rightarrow> replaceBelow p newPosition t)
        else Inr (updateCell (cell p) (\<lambda>k. k\<lparr>rowspan := rowspan k - 1\<rparr>) t))
     else Inr t)"

text \<open>\<open>bodies.splice(bodies.indexOf(cells), 1)\<close>.\<close>

definition removeRow :: "nat \<Rightarrow> TableComponent \<Rightarrow> TableComponent" where
  "removeRow r t = t\<lparr>bodies := splice (indexOf (bodies t) r) 1 [] (bodies t)\<rparr>"

definition deleteTopRow ::
  "TableEditCommander \<Rightarrow> TableComponent \<Rightarrow> error + TableEditCommander \<times> TableComponent" where
  "deleteTopRow cmd t =
     (let (cellMatrix, t1) = serialize t in
      case params cmd of
        None \<Rightarrow> Inl TypeError
      | Some rng \<Rightarrow>
          (let index = rowIndex (startPosition rng) in
           if index = Some 0 then Inr (cmd, t1)
           else
             (case element cellMatrix (Some (toNumber index - 1)) of
                None \<Rightarrow> Inl TypeError
              | Some prevRow \<Rightarrow>
                  (case forEach (deleteTopRowCell cellMatrix index)
                          (enumerate 0 (cellsPosition prevRow)) t1 of
                     Inl e \<Rightarrow> Inl e
                   | Inr t2 \<Rightarrow>
                       Inr (cmd\<lparr>params := Some (shiftRowIndex (- 1) rng)\<rparr>,
                            removeRow (cells prevRow) t2)))))"

definition deleteBottomRowCell ::
  "TableRowPosition list \<Rightarrow> int option \<Rightarrow> nat \<times> TableCellPosition \<Rightarrow> TableComponent
     \<Rightarrow> error + TableComponent" where
  "deleteBottomRowCell cellMatrix index = (\<lambda>(cellIndex, p) t.
     if offsetColumn p = 0 then
       (if offsetRow p > 0
        then Inr (updateCell (cell p) (\<lambda>k. k\<lparr>rowspan := rowspan k - 1\<rparr>) t)
        else if rowspan (cellsH t ! cell p) > 1 then
          (case positionAt cellMatrix (Some (toNumber index + 2)) cellIndex of
             Inl e \<Rightarrow> Inl e
           | Inr newPosition \<Rightarrow> replaceBelow p newPosition t)
        else Inr t)
     else Inr t)"

definition deleteBottomRow ::
  "TableEditCommander \<Rightarrow> TableComponent \<Rightarrow> error + TableEditCommander \<times> TableComponent" where
  "deleteBottomRow cmd t =
     (let (cellMatrix, t1) = serialize t in
      case params cmd of
        None \<Rightarrow> Inl TypeError
      | Some rng \<Rightarrow>
          (let index = rowIndex (endPosition rng) in
           if index = Some (int (length cellMatrix) - 1) then Inr (cmd, t1)
           else
             (case element cellMatrix (Some (toNumber index + 1)) of
                None \<Rightarrow> Inl TypeError
              | Some nextRow \<Rightarrow>
                  (case forEach (deleteBottomRowCell cellMatrix index)
                          (enumerate 0 (cellsPosition nextRow)) t1 of
                     Inl e \<Rightarrow> Inl e
                   | Inr t2 \<Rightarrow> Inr (cmd, removeRow (cells nextRow) t2)))))"

text \<open>
  The callback of the two column deletions, for the position \<open>cell\<close> of the row in the
  deleted column (\<open>undefined\<close> throws).
\<close>

definition deleteColumnCell ::
  "TableCellPosition option \<Rightarrow> TableComponent \<Rightarrow> error + TableComponent" where
  "deleteColumnCell q t =
     (case q of
        None \<Rightarrow> Inl TypeError
      | Some p \<Rightarrow>
          if offsetRow p = 0 then
            (if offsetColumn p > 0
             then Inr (updateCell (cell p) (\<lambda>k. k\<lparr>colspan := colspan k - 1\<rparr>) t)
             else
               (let index = indexOf (rowsH t ! row p) (cell p) in
                if colspan (cellsH t ! cell p) > 1 then
                  (let (n, t') = createCell (rowspan (cellsH t ! cell p))
                                   (colspan (cellsH t ! cell p) - 1) t
                   in Inr (updateRow (row p) (splice index 1 [n]) t'))
                else Inr (updateRow (row p) (splice index 1 []) t)))
          else Inr t)"

definition deleteLeftColumn ::
  "TableEditCommander \<Rightarrow> TableComponent \<Rightarrow> error + TableEditCommander \<times> TableComponent" where
  "deleteLeftColumn cmd t =
     (let (cellMatrix, t1) = serialize t in
      case params cmd of
        None \<Rightarrow> Inl TypeError
      | Some rng \<Rightarrow>
          (let index = columnIndex (startPosition rng) in
           if index = Some 0 then Inr (cmd, t1)
           else
             (case forEach (\<lambda>rw. deleteColumnCell
                       (element (cellsPosition rw) (Some (toNumber index - 1)))) cellMatrix t1 of
                Inl e \<Rightarrow> Inl e
              | Inr t2 \<Rightarrow> Inr (cmd\<lparr>params := Some (shiftColumnIndex (- 1) rng)\<rparr>, t2))))"

definition deleteRightColumn ::
  "TableEditCommander \<Rightarrow> TableComponent \<Rightarrow> error + TableEditCommander \<times> TableComponent" where
  "deleteRightColumn cmd t =
     (let (cellMatrix, t1) = serialize t in
      case params cmd of
        None \<Rightarrow> Inl TypeError
      | Some rng \<Rightarrow>
          (let index = columnIndex (endPosition rng) in
           case cellMatrix of
             [] \<Rightarrow> Inl TypeError
           | rw0 # _ \<Rightarrow>
               if index = Some (int (length (cellsPosition rw0)) - 1) then Inr (cmd, t1)
               else
                 (case forEach (\<lambda>rw. deleteColumnCell
                           (element (cellsPosition rw) (Some (toNumber index + 1)))) cellMatrix t1 of
                    Inl e \<Rightarrow> Inl e
                  | Inr t2 \<Rightarrow> Inr (cmd, t2))))"

subsection \<open>The dispatcher\<close>

text \<open>
  \<open>command(c, actionType)\<close>. \<open>context\<close> is the result of
  \<open>selection.firstRange.startFragment.getContext(TableComponent)\<close>: the enclosing table
  component, or nothing. \<open>markAsDirtied\<close> sets the flag \<open>dirtied\<close> of the component.
  An operation that throws ends the dispatcher at once, before \<open>markAsDirtied\<close>: the error
  comes with the commander as the throw leaves it, which is the commander the operation
  started from, since every operation assigns to \<open>params\<close> only after its last statement
  that can throw. \<open>None\<close> is an operation that never returns.
\<close>

definition markAsDirtied :: "TableComponent \<Rightarrow> TableComponent" where
  "markAsDirtied t = t\<lparr>dirtied := True\<rparr>"

definition command ::
  "TableEditCommander \<Rightarrow> TableComponent option \<Rightarrow> TableEditActions
     \<Rightarrow> (error \<times> TableEditCommander + TableEditCommander \<times> TableComponent option) option" where
  "command cmd context actionType =
     (let cmd1 = cmd\<lparr>recordHistory := True\<rparr> in
      case context of
        None \<Rightarrow> Some (Inr (cmd1\<lparr>recordHistory := False\<rparr>, None))
      | Some t \<Rightarrow>
          (case (case actionType of
                   AddColumnToLeft \<Rightarrow> Some (addColumnToLeft cmd1 t)
                 | AddColumnToRight \<Rightarrow> Some (addColumnToRight cmd1 t)
                 | AddRowToTop \<Rightarrow> Some (addRowToTop cmd1 t)
                 | AddRowToBottom \<Rightarrow> Some (addRowToBottom cmd1 t)
                 | MergeCells \<Rightarrow> mergeCells cmd1 t
                 | SplitCells \<Rightarrow> Some (splitCells cmd1 t)
                 | DeleteTopRow \<Rightarrow> Some (deleteTopRow cmd1 t)
                 | DeleteBottomRow \<Rightarrow> Some (deleteBottomRow cmd1 t)
                 | DeleteLeftColumn \<Rightarrow> Some (deleteLeftColumn cmd1 t)
                 | DeleteRightColumn \<Rightarrow> Some (deleteRightColumn cmd1 t)) of
             None \<Rightarrow> None
           | Some (Inl e) \<Rightarrow> Some (Inl (e, cmd1))
           | Some (Inr (cmd2, t2)) \<Rightarrow> Some (Inr (cmd2, Some (markAsDirtied t2)))))"

section \<open>Properties of the projector\<close>

subsection \<open>What \<open>serialize\<close> does to the component\<close>

text \<open>
  \<open>serialize\<close> reads the component and changes nothing that the component references: the
  only effect is that the arena of row arrays grows by the empty arrays created for the
  matrix rows below the last row of \<open>bodies\<close>.
\<close>

definition extends :: "nat list list \<Rightarrow> nat list list \<Rightarrow> bool" where
  "extends xs ys = (\<exists>k. ys = xs @ replicate k [])"

lemma extends_refl: "extends xs xs"
  unfolding extends_def by (rule exI [of _ 0]) simp

lemma extends_trans: "extends xs ys \<Longrightarrow> extends ys zs \<Longrightarrow> extends xs zs"
  unfolding extends_def by (metis append.assoc replicate_add)

lemma spanRight_arrays: "arraysS (spanRight cs c r p st) = arraysS st"
  by (simp add: spanRight_def Let_def)

lemma spanDown_arrays: "extends (arraysS st) (arraysS (spanDown cs c r p st))"
proof -
  have "extends xs (xs @ [[]])" for xs :: "nat list list"
    unfolding extends_def by (rule exI [of _ 1]) simp
  then show ?thesis by (simp add: spanDown_def Let_def extends_refl)
qed

lemma visit_arrays: "extends (arraysS st) (arraysS (visit cs c r st))"
proof (cases "c < length (cellsPosition (rowsS st ! r))")
  case False
  then show ?thesis by (simp add: visit_def extends_refl)
next
  case True
  define p where "p = locate r c (cellsPosition (rowsS st ! r) ! c)"
  define st1 where "st1 = st\<lparr>rowsS := setCellsPosition r ((cellsPosition (rowsS st ! r))[c := p]) (rowsS st)\<rparr>"
  have "arraysS (visit cs c r st) = arraysS (spanDown cs c r p (spanRight cs c r p st1))"
    using True by (simp add: visit_def Let_def p_def st1_def)
  moreover have "arraysS (spanRight cs c r p st1) = arraysS st"
    by (simp add: spanRight_arrays st1_def)
  ultimately show ?thesis
    using spanDown_arrays [of "spanRight cs c r p st1" cs c r p] by simp
qed

lemma sweepRows_arrays: "extends (arraysS st) (arraysS (sweepRows cs c r st))"
proof (induction cs c r st rule: sweepRows.induct)
  case (1 cs c r st)
  show ?case
  proof (cases "r < length (rowsS st)")
    case True
    then show ?thesis
      using "1.IH" visit_arrays [of st cs c r]
      by (subst sweepRows.simps) (auto intro: extends_trans)
  next
    case False
    then show ?thesis by (subst sweepRows.simps) (simp add: extends_refl)
  qed
qed

lemma sweepColumns_arrays: "extends (arraysS st) (arraysS (sweepColumns cs c st))"
proof (induction cs c st rule: sweepColumns.induct)
  case (1 cs c st)
  define st' where "st' = sweepRows cs c 0 (st\<lparr>stopS := False\<rparr>)"
  have a: "extends (arraysS st) (arraysS st')"
    using sweepRows_arrays [of "st\<lparr>stopS := False\<rparr>" cs c 0] by (simp add: st'_def)
  show ?case
  proof (cases "stopS st'")
    case True
    then show ?thesis
      using "1.IH" [OF st'_def] a
      by (subst sweepColumns.simps) (auto simp: Let_def st'_def [symmetric] intro: extends_trans)
  next
    case False
    then show ?thesis
      using a by (subst sweepColumns.simps) (simp add: Let_def st'_def [symmetric])
  qed
qed

lemma serialize_component:
  "\<exists>k. snd (serialize t) = t\<lparr>rowsH := rowsH t @ replicate k []\<rparr>"
  using sweepColumns_arrays [of "\<lparr>rowsS = map (seedRow t) [0..<length (bodies t)], marksS = [],
                  stopS = False, arraysS = rowsH t\<rparr>" "cellsH t" 0]
  by (auto simp: serialize_def Let_def extends_def)

subsection \<open>Loops over arrays\<close>

lemma createCell_eq:
  "createCell rs cs t = (length (cellsH t),
      t\<lparr>cellsH := cellsH t @ [\<lparr>colspan = cs, rowspan = rs, fragment = length (fragsH t)\<rparr>],
        fragsH := fragsH t @ [[BrComponent]]\<rparr>)"
  by (simp add: createCell_def)

lemma forEach_invariant:
  assumes "forEach f xs s = Inr s'" and "P s"
    and "\<And>x u u'. x \<in> set xs \<Longrightarrow> P u \<Longrightarrow> f x u = Inr u' \<Longrightarrow> P u'"
  shows "P s'"
  using assms
proof (induction xs arbitrary: s)
  case Nil
  then show ?case by simp
next
  case (Cons x xs)
  then obtain u where u: "f x s = Inr u" "forEach f xs u = Inr s'"
    by (auto split: sum.splits)
  have "P u" using Cons.prems(3) [of x s u] Cons.prems(2) u(1) by simp
  then show ?case
  proof (rule Cons.IH [OF u(2)])
    fix y v v' assume "y \<in> set xs" "P v" "f y v = Inr v'"
    then show "P v'" using Cons.prems(3) [of y v v'] by simp
  qed
qed

lemma serialize_bodies: "bodies (snd (serialize t)) = bodies t"
  by (simp add: serialize_def Let_def)

subsection \<open>\<open>indexOf\<close> and \<open>splice\<close> on an element of the array\<close>

lemma indexOf_absent: "a \<notin> set xs \<Longrightarrow> indexOf xs a = - 1"
  by (induction xs) (auto simp: Let_def)

lemma indexOf_present:
  "a \<in> set xs \<Longrightarrow> indexOf xs a = int (length (takeWhile (\<lambda>x. x \<noteq> a) xs))"
  by (induction xs) (auto simp: Let_def)

lemma indexOf_range: "- 1 \<le> indexOf xs a \<and> indexOf xs a < int (length xs)"
  by (induction xs) (auto simp: Let_def)

lemma splice_before:
  assumes "a \<in> set xs"
  shows "splice (indexOf xs a) 0 [n] xs
           = takeWhile (\<lambda>x. x \<noteq> a) xs @ n # dropWhile (\<lambda>x. x \<noteq> a) xs"
proof -
  have "length (takeWhile (\<lambda>x. x \<noteq> a) xs) \<le> length xs"
    by (rule length_takeWhile_le)
  moreover have "take (length (takeWhile (\<lambda>x. x \<noteq> a) xs)) xs = takeWhile (\<lambda>x. x \<noteq> a) xs"
    by (metis append_eq_conv_conj takeWhile_dropWhile_id)
  moreover have "drop (length (takeWhile (\<lambda>x. x \<noteq> a) xs)) xs = dropWhile (\<lambda>x. x \<noteq> a) xs"
    by (metis append_eq_conv_conj takeWhile_dropWhile_id)
  ultimately show ?thesis
    using assms by (simp add: splice_def relIndex_def indexOf_present min_def)
qed

lemma splice_remove:
  assumes "a \<in> set xs"
  shows "splice (indexOf xs a) 1 [] xs
           = takeWhile (\<lambda>x. x \<noteq> a) xs @ tl (dropWhile (\<lambda>x. x \<noteq> a) xs)"
proof -
  have "length (takeWhile (\<lambda>x. x \<noteq> a) xs) \<le> length xs"
    by (rule length_takeWhile_le)
  moreover have "take (length (takeWhile (\<lambda>x. x \<noteq> a) xs)) xs = takeWhile (\<lambda>x. x \<noteq> a) xs"
    by (metis append_eq_conv_conj takeWhile_dropWhile_id)
  moreover have "drop (length (takeWhile (\<lambda>x. x \<noteq> a) xs)) xs = dropWhile (\<lambda>x. x \<noteq> a) xs"
    by (metis append_eq_conv_conj takeWhile_dropWhile_id)
  ultimately show ?thesis
    using assms by (simp add: splice_def relIndex_def indexOf_present min_def drop_Suc drop_tl)
qed

lemma splice_remove1:
  assumes "a \<in> set xs"
  shows "splice (indexOf xs a) 1 [] xs = remove1 a xs"
  using assms
proof (induction xs)
  case Nil
  then show ?case by simp
next
  case (Cons x xs)
  show ?case
  proof (cases "x = a")
    case True
    then show ?thesis by (simp add: splice_def relIndex_def)
  next
    case False
    then have a: "a \<in> set xs" using Cons.prems by simp
    have i: "0 \<le> indexOf xs a" using a by (simp add: indexOf_present)
    have "splice (indexOf xs a + 1) 1 [] (x # xs) = x # splice (indexOf xs a) 1 [] xs"
      using i indexOf_range [of xs a]
      by (simp add: splice_def relIndex_def min_def nat_add_distrib Let_def)
    then show ?thesis using False Cons.IH [OF a] i by (simp add: Let_def)
  qed
qed

lemma deleteTopRowCell_bodies:
  "deleteTopRowCell m index x t = Inr t' \<Longrightarrow> bodies t' = bodies t"
  by (cases x)
     (auto simp: deleteTopRowCell_def replaceBelow_def createCell_eq updateRow_def updateCell_def
        split: if_splits sum.splits option.splits)

section \<open>Example components\<close>

text \<open>A table of one \<open>1\<times>1\<close> cell, and the selection of that cell.\<close>

definition singleCell :: TableComponent where
  "singleCell = \<lparr>cellsH = [\<lparr>colspan = 1, rowspan = 1, fragment = 0\<rparr>], rowsH = [[0]],
     fragsH = [[Component 0]], bodies = [0], dirtied = False\<rparr>"

definition singleCellRange :: TableEditRange where
  "singleCellRange = Shared \<lparr>beforeCell = None, afterCell = None, row = 0, cell = 0,
     rowIndex = Some 0, columnIndex = Some 0, offsetColumn = 0, offsetRow = 0\<rparr>"

lemma serialize_singleCell:
  "serialize singleCell = ([\<lparr>cells = 0, beforeRow = None, afterRow = None,
      cellsPosition = [\<lparr>beforeCell = None, afterCell = None, row = 0, cell = 0,
     rowIndex = Some 0, columnIndex = Some 0, offsetColumn = 0, offsetRow = 0\<rparr>]\<rparr>], singleCell)"
  by code_simp

text \<open>
  The component \<open>TableComponentLoader.read\<close> builds from the rows of a table, each cell
  given by its \<open>(rowspan, colspan)\<close>: the cells are numbered row by row, and every cell has
  a fragment of its own.
\<close>

definition tableOf :: "(int \<times> int) list list \<Rightarrow> TableComponent" where
  "tableOf g =
     \<lparr>cellsH = map (\<lambda>((rs, cs), i). \<lparr>colspan = cs, rowspan = rs, fragment = i\<rparr>)
                 (zip (concat g) [0..<length (concat g)]),
      rowsH = map (\<lambda>i. map (\<lambda>j. length (concat (take i g)) + j) [0..<length (g ! i)])
                [0..<length g],
      fragsH = map (\<lambda>i. [Component i]) [0..<length (concat g)],
      bodies = [0..<length g], dirtied = False\<rparr>"

text \<open>The grid store as rows of \<open>(rowspan, colspan)\<close>, and the row lengths of its matrix.\<close>

definition spans :: "TableComponent \<Rightarrow> (int \<times> int) list list" where
  "spans t = map (\<lambda>r. map (\<lambda>k. (rowspan (cellsH t ! k), colspan (cellsH t ! k))) (rowsH t ! r))
               (bodies t)"

definition matrixShape :: "TableComponent \<Rightarrow> nat list" where
  "matrixShape t = map (\<lambda>rw. length (cellsPosition rw)) (fst (serialize t))"

definition positionOf :: "TableComponent \<Rightarrow> nat \<Rightarrow> nat \<Rightarrow> TableCellPosition" where
  "positionOf t r c = cellsPosition (fst (serialize t) ! r) ! c"

definition commanderOn :: "TableEditRange \<Rightarrow> TableEditCommander" where
  "commanderOn rng = \<lparr>recordHistory = True, params = Some rng\<rparr>"

definition mergeThenSplit ::
  "TableEditCommander \<Rightarrow> TableComponent \<Rightarrow> (error + TableEditCommander \<times> TableComponent) option" where
  "mergeThenSplit cmd t =
     (case mergeCells cmd t of
        None \<Rightarrow> None
      | Some (Inl e) \<Rightarrow> Some (Inl e)
      | Some (Inr (cmd1, t1)) \<Rightarrow> Some (splitCells cmd1 t1))"

definition addThenDeleteLeft ::
  "TableEditCommander \<Rightarrow> TableComponent \<Rightarrow> error + TableEditCommander \<times> TableComponent" where
  "addThenDeleteLeft cmd t =
     (case addColumnToLeft cmd t of
        Inl e \<Rightarrow> Inl e
      | Inr (cmd1, t1) \<Rightarrow> deleteLeftColumn cmd1 t1)"

text \<open>Tables used below, by the \<open>(rowspan, colspan)\<close> of their cells.\<close>

definition tallFirstCell :: TableComponent where
  "tallFirstCell = tableOf [[(2, 1), (1, 1)], [(1, 1)]]"

definition wideFirstCell :: TableComponent where
  "wideFirstCell = tableOf [[(1, 2), (1, 1)]]"

definition mixedSpans :: TableComponent where
  "mixedSpans = tableOf [[(1, 1), (2, 1), (1, 1), (1, 1), (1, 1)], [(1, 1), (1, 2), (1, 1)]]"

definition threeRows :: TableComponent where
  "threeRows = tableOf [[(1, 1)], [(1, 1)], [(1, 1)]]"

definition twoByTwo :: TableComponent where
  "twoByTwo = tableOf [[(1, 1), (1, 1)], [(1, 1), (1, 1)]]"

text \<open>The cells of the grid store, row by row.\<close>

definition cellsOfGrid :: "TableComponent \<Rightarrow> nat list" where
  "cellsOfGrid t = concat (map (\<lambda>r. rowsH t ! r) (bodies t))"

section \<open>Boundary requests\<close>

text \<open>
  Claim C9. Each of the four delete commands, requested at its edge of the grid
  (\<open>deleteTopRow\<close> and \<open>deleteLeftColumn\<close> with index \<open>0\<close>, \<open>deleteBottomRow\<close> with the index
  of the last matrix row, \<open>deleteRightColumn\<close> with the index of the last column of the
  first matrix row), returns without an error and leaves the commander and the component
  as they were: no cell, span, row array or entry of \<open>bodies\<close> changes. The \<open>k\<close> empty
  arrays at the end of the arena are those the matrix of this call was built with; the
  component does not reference them.
\<close>

theorem boundary_requests_change_nothing:
  assumes "params cmd = Some rng"
  shows "(rowIndex (startPosition rng) = Some 0 \<longrightarrow>
           (\<exists>k. deleteTopRow cmd t = Inr (cmd, t\<lparr>rowsH := rowsH t @ replicate k []\<rparr>)))
       \<and> (columnIndex (startPosition rng) = Some 0 \<longrightarrow>
           (\<exists>k. deleteLeftColumn cmd t = Inr (cmd, t\<lparr>rowsH := rowsH t @ replicate k []\<rparr>)))
       \<and> (rowIndex (endPosition rng) = Some (int (length (fst (serialize t))) - 1) \<longrightarrow>
           (\<exists>k. deleteBottomRow cmd t = Inr (cmd, t\<lparr>rowsH := rowsH t @ replicate k []\<rparr>)))
       \<and> (fst (serialize t) \<noteq> [] \<and>
          columnIndex (endPosition rng)
            = Some (int (length (cellsPosition (hd (fst (serialize t))))) - 1) \<longrightarrow>
           (\<exists>k. deleteRightColumn cmd t = Inr (cmd, t\<lparr>rowsH := rowsH t @ replicate k []\<rparr>)))"
proof -
  obtain k where k: "snd (serialize t) = t\<lparr>rowsH := rowsH t @ replicate k []\<rparr>"
    using serialize_component by blast
  obtain m where m: "serialize t = (m, t\<lparr>rowsH := rowsH t @ replicate k []\<rparr>)"
    using k by (cases "serialize t") simp
  have top: "rowIndex (startPosition rng) = Some 0 \<Longrightarrow>
      deleteTopRow cmd t = Inr (cmd, t\<lparr>rowsH := rowsH t @ replicate k []\<rparr>)"
    using assms by (simp add: deleteTopRow_def m)
  have left: "columnIndex (startPosition rng) = Some 0 \<Longrightarrow>
      deleteLeftColumn cmd t = Inr (cmd, t\<lparr>rowsH := rowsH t @ replicate k []\<rparr>)"
    using assms by (simp add: deleteLeftColumn_def m)
  have bottom: "rowIndex (endPosition rng) = Some (int (length (fst (serialize t))) - 1) \<Longrightarrow>
      deleteBottomRow cmd t = Inr (cmd, t\<lparr>rowsH := rowsH t @ replicate k []\<rparr>)"
    using assms by (simp add: deleteBottomRow_def m)
  have right: "fst (serialize t) \<noteq> [] \<Longrightarrow> columnIndex (endPosition rng)
            = Some (int (length (cellsPosition (hd (fst (serialize t))))) - 1) \<Longrightarrow>
      deleteRightColumn cmd t = Inr (cmd, t\<lparr>rowsH := rowsH t @ replicate k []\<rparr>)"
    using assms by (cases m) (simp_all add: deleteRightColumn_def m)
  show ?thesis using top left bottom right by blast
qed

theorem boundary_requests_change_nothing_witness:
  "params \<lparr>recordHistory = True, params = Some singleCellRange\<rparr> = Some singleCellRange
   \<and> rowIndex (startPosition singleCellRange) = Some 0
   \<and> columnIndex (startPosition singleCellRange) = Some 0
   \<and> rowIndex (endPosition singleCellRange) = Some (int (length (fst (serialize singleCell))) - 1)
   \<and> fst (serialize singleCell) \<noteq> []
   \<and> columnIndex (endPosition singleCellRange)
        = Some (int (length (cellsPosition (hd (fst (serialize singleCell))))) - 1)
   \<and> (\<exists>k. deleteTopRow \<lparr>recordHistory = True, params = Some singleCellRange\<rparr> singleCell
          = Inr (\<lparr>recordHistory = True, params = Some singleCellRange\<rparr>,
                 singleCell\<lparr>rowsH := rowsH singleCell @ replicate k []\<rparr>))
   \<and> (\<exists>k. deleteLeftColumn \<lparr>recordHistory = True, params = Some singleCellRange\<rparr> singleCell
          = Inr (\<lparr>recordHistory = True, params = Some singleCellRange\<rparr>,
                 singleCell\<lparr>rowsH := rowsH singleCell @ replicate k []\<rparr>))
   \<and> (\<exists>k. deleteBottomRow \<lparr>recordHistory = True, params = Some singleCellRange\<rparr> singleCell
          = Inr (\<lparr>recordHistory = True, params = Some singleCellRange\<rparr>,
                 singleCell\<lparr>rowsH := rowsH singleCell @ replicate k []\<rparr>))
   \<and> (\<exists>k. deleteRightColumn \<lparr>recordHistory = True, params = Some singleCellRange\<rparr> singleCell
          = Inr (\<lparr>recordHistory = True, params = Some singleCellRange\<rparr>,
                 singleCell\<lparr>rowsH := rowsH singleCell @ replicate k []\<rparr>))"
proof -
  have p: "params \<lparr>recordHistory = True, params = Some singleCellRange\<rparr> = Some singleCellRange"
    by simp
  have h: "rowIndex (startPosition singleCellRange) = Some 0"
    "columnIndex (startPosition singleCellRange) = Some 0"
    "rowIndex (endPosition singleCellRange) = Some (int (length (fst (serialize singleCell))) - 1)"
    "fst (serialize singleCell) \<noteq> []"
    "columnIndex (endPosition singleCellRange)
        = Some (int (length (cellsPosition (hd (fst (serialize singleCell))))) - 1)"
    by (simp_all add: serialize_singleCell singleCellRange_def)
  show ?thesis
    using boundary_requests_change_nothing [OF p, of singleCell] p h by blast
qed

section \<open>The dispatcher\<close>

text \<open>Every operation returns the commander with the \<open>recordHistory\<close> it was given.\<close>

lemma operations_keep_recordHistory:
  assumes "(case a of
         AddColumnToLeft \<Rightarrow> Some (addColumnToLeft cmd t)
       | AddColumnToRight \<Rightarrow> Some (addColumnToRight cmd t)
       | AddRowToTop \<Rightarrow> Some (addRowToTop cmd t)
       | AddRowToBottom \<Rightarrow> Some (addRowToBottom cmd t)
       | MergeCells \<Rightarrow> mergeCells cmd t
       | SplitCells \<Rightarrow> Some (splitCells cmd t)
       | DeleteTopRow \<Rightarrow> Some (deleteTopRow cmd t)
       | DeleteBottomRow \<Rightarrow> Some (deleteBottomRow cmd t)
       | DeleteLeftColumn \<Rightarrow> Some (deleteLeftColumn cmd t)
       | DeleteRightColumn \<Rightarrow> Some (deleteRightColumn cmd t))
             = Some (Inr (cmd2, t2))"
  shows "recordHistory cmd2 = recordHistory cmd"
  using assms
  by (cases a)
     (auto simp: addColumnToLeft_def addColumnToRight_def addRowToTop_def addRowToBottom_def
        mergeCells_def splitCells_def deleteTopRow_def deleteBottomRow_def
        deleteLeftColumn_def deleteRightColumn_def Let_def
        split: prod.splits option.splits sum.splits if_splits list.splits)

text \<open>
  Claim C10, amended. For every action type: without an enclosing table component the
  dispatcher returns at once, no edit operation runs (there is no component to change,
  and \<open>params\<close> stays as it was) and \<open>recordHistory\<close> is \<open>false\<close>. With one, the operation
  named by the action type runs on the component, with \<open>recordHistory\<close> set to \<open>true\<close>.
  When the operation returns, \<open>recordHistory\<close> is still \<open>true\<close> and the component the
  operation leaves is marked as dirtied. When the operation throws, the error ends the
  dispatcher with \<open>recordHistory\<close> \<open>true\<close> and \<open>params\<close> as before, and no component is
  marked as dirtied. When the operation does not return, neither does the dispatcher.
\<close>

theorem command_runs_the_operation:
  "command cmd None a = Some (Inr (cmd\<lparr>recordHistory := False\<rparr>, None))
   \<and> command cmd (Some t) a =
       (case (case a of
                AddColumnToLeft \<Rightarrow> Some (addColumnToLeft (cmd\<lparr>recordHistory := True\<rparr>) t)
              | AddColumnToRight \<Rightarrow> Some (addColumnToRight (cmd\<lparr>recordHistory := True\<rparr>) t)
              | AddRowToTop \<Rightarrow> Some (addRowToTop (cmd\<lparr>recordHistory := True\<rparr>) t)
              | AddRowToBottom \<Rightarrow> Some (addRowToBottom (cmd\<lparr>recordHistory := True\<rparr>) t)
              | MergeCells \<Rightarrow> mergeCells (cmd\<lparr>recordHistory := True\<rparr>) t
              | SplitCells \<Rightarrow> Some (splitCells (cmd\<lparr>recordHistory := True\<rparr>) t)
              | DeleteTopRow \<Rightarrow> Some (deleteTopRow (cmd\<lparr>recordHistory := True\<rparr>) t)
              | DeleteBottomRow \<Rightarrow> Some (deleteBottomRow (cmd\<lparr>recordHistory := True\<rparr>) t)
              | DeleteLeftColumn \<Rightarrow> Some (deleteLeftColumn (cmd\<lparr>recordHistory := True\<rparr>) t)
              | DeleteRightColumn \<Rightarrow> Some (deleteRightColumn (cmd\<lparr>recordHistory := True\<rparr>) t)) of
          None \<Rightarrow> None
        | Some (Inl e) \<Rightarrow> Some (Inl (e, cmd\<lparr>recordHistory := True\<rparr>))
        | Some (Inr (cmd2, t2)) \<Rightarrow>
            Some (Inr (cmd2\<lparr>recordHistory := True\<rparr>, Some (t2\<lparr>dirtied := True\<rparr>))))"
proof -
  define op where "op = (case a of
           AddColumnToLeft \<Rightarrow> Some (addColumnToLeft (cmd\<lparr>recordHistory := True\<rparr>) t)
         | AddColumnToRight \<Rightarrow> Some (addColumnToRight (cmd\<lparr>recordHistory := True\<rparr>) t)
         | AddRowToTop \<Rightarrow> Some (addRowToTop (cmd\<lparr>recordHistory := True\<rparr>) t)
         | AddRowToBottom \<Rightarrow> Some (addRowToBottom (cmd\<lparr>recordHistory := True\<rparr>) t)
         | MergeCells \<Rightarrow> mergeCells (cmd\<lparr>recordHistory := True\<rparr>) t
         | SplitCells \<Rightarrow> Some (splitCells (cmd\<lparr>recordHistory := True\<rparr>) t)
         | DeleteTopRow \<Rightarrow> Some (deleteTopRow (cmd\<lparr>recordHistory := True\<rparr>) t)
         | DeleteBottomRow \<Rightarrow> Some (deleteBottomRow (cmd\<lparr>recordHistory := True\<rparr>) t)
         | DeleteLeftColumn \<Rightarrow> Some (deleteLeftColumn (cmd\<lparr>recordHistory := True\<rparr>) t)
         | DeleteRightColumn \<Rightarrow> Some (deleteRightColumn (cmd\<lparr>recordHistory := True\<rparr>) t))"
  have none: "command cmd None a = Some (Inr (cmd\<lparr>recordHistory := False\<rparr>, None))"
    by (simp add: command_def)
  have keep: "cmd2\<lparr>recordHistory := True\<rparr> = cmd2" if "op = Some (Inr (cmd2, t2))" for cmd2 t2
    using operations_keep_recordHistory [OF that [unfolded op_def]] by simp
  have "command cmd (Some t) a =
       (case op of
          None \<Rightarrow> None
        | Some (Inl e) \<Rightarrow> Some (Inl (e, cmd\<lparr>recordHistory := True\<rparr>))
        | Some (Inr (cmd2, t2)) \<Rightarrow> Some (Inr (cmd2, Some (markAsDirtied t2))))"
    by (simp add: command_def op_def Let_def)
  also have "\<dots> =
       (case op of
          None \<Rightarrow> None
        | Some (Inl e) \<Rightarrow> Some (Inl (e, cmd\<lparr>recordHistory := True\<rparr>))
        | Some (Inr (cmd2, t2)) \<Rightarrow>
            Some (Inr (cmd2\<lparr>recordHistory := True\<rparr>, Some (t2\<lparr>dirtied := True\<rparr>))))"
    using keep by (auto simp: markAsDirtied_def split: option.splits sum.splits)
  finally show ?thesis using none unfolding op_def by blast
qed

lemma addColumnToLeft_singleCell:
  "addColumnToLeft \<lparr>recordHistory = True, params = Some singleCellRange\<rparr> singleCell
     = Inr (\<lparr>recordHistory = True,
           params = Some (Shared \<lparr>beforeCell = None, afterCell = None, row = 0, cell = 0,
                   rowIndex = Some 0, columnIndex = Some 1, offsetColumn = 0, offsetRow = 0\<rparr>)\<rparr>,
        \<lparr>cellsH = [\<lparr>colspan = 1, rowspan = 1, fragment = 0\<rparr>,
                   \<lparr>colspan = 1, rowspan = 1, fragment = 1\<rparr>],
          rowsH = [[1, 0]], fragsH = [[Component 0], [BrComponent]],
          bodies = [0], dirtied = False\<rparr>)"
  by code_simp

theorem command_runs_the_operation_witness:
  "command \<lparr>recordHistory = False, params = Some singleCellRange\<rparr> None AddColumnToLeft
     = Some (Inr (\<lparr>recordHistory = False, params = Some singleCellRange\<rparr>, None))
   \<and> command \<lparr>recordHistory = False, params = Some singleCellRange\<rparr> (Some singleCell)
        AddColumnToLeft
     = Some (Inr (\<lparr>recordHistory = True,
           params = Some (Shared \<lparr>beforeCell = None, afterCell = None, row = 0, cell = 0,
                   rowIndex = Some 0, columnIndex = Some 1, offsetColumn = 0, offsetRow = 0\<rparr>)\<rparr>,
        Some \<lparr>cellsH = [\<lparr>colspan = 1, rowspan = 1, fragment = 0\<rparr>,
                        \<lparr>colspan = 1, rowspan = 1, fragment = 1\<rparr>],
            rowsH = [[1, 0]], fragsH = [[Component 0], [BrComponent]],
            bodies = [0], dirtied = True\<rparr>))"
  using command_runs_the_operation
          [of "\<lparr>recordHistory = False, params = Some singleCellRange\<rparr>" AddColumnToLeft singleCell]
        addColumnToLeft_singleCell
  by simp

text \<open>
  The claim as it is written fails for a commander whose \<open>params\<close> were never set
  (\<open>setEditRange\<close> has not been called): the table component is there, every operation
  throws a \<open>TypeError\<close> when it reads \<open>this.params.startPosition\<close> or
  \<open>this.params.endPosition\<close>, and the dispatcher ends before \<open>markAsDirtied\<close>.
\<close>

theorem command_throws_counterexample:
  "\<forall>a. command \<lparr>recordHistory = False, params = None\<rparr> (Some singleCell) a
     = Some (Inl (TypeError, \<lparr>recordHistory = True, params = None\<rparr>))"
proof
  fix a
  show "command \<lparr>recordHistory = False, params = None\<rparr> (Some singleCell) a
     = Some (Inl (TypeError, \<lparr>recordHistory = True, params = None\<rparr>))"
    by (cases a)
       (simp_all add: command_def addColumnToLeft_def addColumnToRight_def addRowToTop_def
          addRowToBottom_def mergeCells_def splitCells_def deleteTopRow_def deleteBottomRow_def
          deleteLeftColumn_def deleteRightColumn_def split_beta)
qed

section \<open>AddColumnToLeft\<close>

lemma addColumnToLeftRow_at:
  assumes "element (cellsPosition rw) index = Some p"
  shows "addColumnToLeftRow index rw t =
          (if index = Some 0 then
            (let (n, t') = createCell 1 1 t in Inr (updateRow (row p) (\<lambda>xs. n # xs) t'))
          else if offsetColumn p = 0 then
            (let i = indexOf (rowsH t ! row p) (cell p); (n, t') = createCell 1 1 t
             in Inr (updateRow (row p) (splice i 0 [n]) t'))
          else if offsetRow p = 0 then
            Inr (updateCell (cell p) (\<lambda>k. k\<lparr>colspan := colspan k + 1\<rparr>) t)
          else Inr t)"
  using assms by (simp add: addColumnToLeftRow_def)

text \<open>
  Claim C6, amended. \<open>addColumnToLeft\<close> visits every row of the matrix, in order, with the
  position \<open>p\<close> of the row at the target column \<open>index\<close>. With \<open>index = 0\<close> a new \<open>1\<times>1\<close> cell
  goes to the front of the row array of \<open>p\<close>. Otherwise, when \<open>p\<close> starts its cell
  (\<open>offsetColumn = 0\<close>, \<open>offsetRow = 0\<close>, the cell is in the row array), a new \<open>1\<times>1\<close> cell goes
  immediately before that cell; when \<open>offsetColumn > 0\<close> and \<open>offsetRow = 0\<close> the \<open>colspan\<close> of
  the cell grows by one and nothing is inserted; when \<open>offsetColumn > 0\<close> and
  \<open>offsetRow > 0\<close> nothing changes. Afterwards the column index of the start position is
  one more; the column index of the end position is one more when it is the same object
  as the start position or holds another cell, and stays as it is when the two positions
  are two objects that hold the same cell.
\<close>

theorem addColumnToLeft_by_row:
  assumes "element (cellsPosition rw) index = Some p"
    and "index = Some 0 \<or> 0 < offsetColumn p
           \<or> (offsetRow p = 0 \<and> cell p \<in> set (rowsH t ! row p))"
  shows "addColumnToLeftRow index rw t = Inr
           (if index = Some 0 \<or> offsetColumn p = 0 then
              t\<lparr>cellsH := cellsH t @ [\<lparr>colspan = 1, rowspan = 1, fragment = length (fragsH t)\<rparr>],
                fragsH := fragsH t @ [[BrComponent]],
                rowsH := (rowsH t)[row p :=
                  (if index = Some 0 then length (cellsH t) # rowsH t ! row p
                   else takeWhile (\<lambda>k. k \<noteq> cell p) (rowsH t ! row p)
                          @ length (cellsH t) # dropWhile (\<lambda>k. k \<noteq> cell p) (rowsH t ! row p))]\<rparr>
            else if offsetRow p = 0 then
              t\<lparr>cellsH := (cellsH t)[cell p :=
                   (cellsH t ! cell p)\<lparr>colspan := colspan (cellsH t ! cell p) + 1\<rparr>]\<rparr>
            else t)
       \<and> (\<forall>cmd u rng cmd' u'.
             params cmd = Some rng \<and> addColumnToLeft cmd u = Inr (cmd', u') \<longrightarrow>
               forEach (addColumnToLeftRow (columnIndex (startPosition rng)))
                  (fst (serialize u)) (snd (serialize u)) = Inr u'
             \<and> cmd' = cmd\<lparr>params := Some
                  (case rng of
                     Shared q \<Rightarrow> Shared (q\<lparr>columnIndex := Some (toNumber (columnIndex q) + 1)\<rparr>)
                   | Separate s e \<Rightarrow>
                       Separate (s\<lparr>columnIndex := Some (toNumber (columnIndex s) + 1)\<rparr>)
                         (if cell s = cell e then e
                          else e\<lparr>columnIndex := Some (toNumber (columnIndex e) + 1)\<rparr>))\<rparr>)"
proof -
  have rowwise: "addColumnToLeftRow index rw t = Inr
           (if index = Some 0 \<or> offsetColumn p = 0 then
              t\<lparr>cellsH := cellsH t @ [\<lparr>colspan = 1, rowspan = 1, fragment = length (fragsH t)\<rparr>],
                fragsH := fragsH t @ [[BrComponent]],
                rowsH := (rowsH t)[row p :=
                  (if index = Some 0 then length (cellsH t) # rowsH t ! row p
                   else takeWhile (\<lambda>k. k \<noteq> cell p) (rowsH t ! row p)
                          @ length (cellsH t) # dropWhile (\<lambda>k. k \<noteq> cell p) (rowsH t ! row p))]\<rparr>
            else if offsetRow p = 0 then
              t\<lparr>cellsH := (cellsH t)[cell p :=
                   (cellsH t ! cell p)\<lparr>colspan := colspan (cellsH t ! cell p) + 1\<rparr>]\<rparr>
            else t)"
    unfolding addColumnToLeftRow_at [OF assms(1)] using assms(2)
    by (auto simp: createCell_eq updateRow_def updateCell_def Let_def splice_before)
  have whole: "forEach (addColumnToLeftRow (columnIndex (startPosition rng)))
                  (fst (serialize u)) (snd (serialize u)) = Inr u'
             \<and> cmd' = cmd\<lparr>params := Some
                  (case rng of
                     Shared q \<Rightarrow> Shared (q\<lparr>columnIndex := Some (toNumber (columnIndex q) + 1)\<rparr>)
                   | Separate s e \<Rightarrow>
                       Separate (s\<lparr>columnIndex := Some (toNumber (columnIndex s) + 1)\<rparr>)
                         (if cell s = cell e then e
                          else e\<lparr>columnIndex := Some (toNumber (columnIndex e) + 1)\<rparr>))\<rparr>"
    if h: "params cmd = Some rng" "addColumnToLeft cmd u = Inr (cmd', u')" for cmd u rng cmd' u'
  proof -
    have "shiftColumnIndex 1 rng = (case rng of
                     Shared q \<Rightarrow> Shared (q\<lparr>columnIndex := Some (toNumber (columnIndex q) + 1)\<rparr>)
                   | Separate s e \<Rightarrow>
                       Separate (s\<lparr>columnIndex := Some (toNumber (columnIndex s) + 1)\<rparr>)
                         (if cell s = cell e then e
                          else e\<lparr>columnIndex := Some (toNumber (columnIndex e) + 1)\<rparr>))"
      by (cases rng) (simp_all add: shiftColumnIndex_def Let_def)
    then show ?thesis
      using h by (auto simp: addColumnToLeft_def split: prod.splits sum.splits)
  qed
  show ?thesis using rowwise whole by blast
qed

lemma wideFirstCell_eq:
  "wideFirstCell = \<lparr>cellsH = [\<lparr>colspan = 2, rowspan = 1, fragment = 0\<rparr>,
      \<lparr>colspan = 1, rowspan = 1, fragment = 1\<rparr>],
     rowsH = [[0, 1]], fragsH = [[Component 0], [Component 1]], bodies = [0], dirtied = False\<rparr>"
  by code_simp

lemma serialize_wideFirstCell:
  "serialize wideFirstCell = ([\<lparr>cells = 0, beforeRow = None, afterRow = None,
      cellsPosition =
        [\<lparr>beforeCell = None, afterCell = Some 1, row = 0, cell = 0,
            rowIndex = Some 0, columnIndex = Some 0, offsetColumn = 0, offsetRow = 0\<rparr>,
         \<lparr>beforeCell = None, afterCell = Some 1, row = 0, cell = 0,
            rowIndex = Some 0, columnIndex = Some 1, offsetColumn = 1, offsetRow = 0\<rparr>,
         \<lparr>beforeCell = Some 0, afterCell = None, row = 0, cell = 1,
            rowIndex = Some 0, columnIndex = Some 2, offsetColumn = 0, offsetRow = 0\<rparr>]\<rparr>],
     wideFirstCell)"
  by code_simp

lemma addColumnToLeft_wideFirstCell:
  "addColumnToLeft (commanderOn (Separate (positionOf wideFirstCell 0 0) (positionOf wideFirstCell 0 1)))
      wideFirstCell
   = Inr (commanderOn (Separate
            \<lparr>beforeCell = None, afterCell = Some 1, row = 0, cell = 0,
               rowIndex = Some 0, columnIndex = Some 1, offsetColumn = 0, offsetRow = 0\<rparr>
            \<lparr>beforeCell = None, afterCell = Some 1, row = 0, cell = 0,
               rowIndex = Some 0, columnIndex = Some 1, offsetColumn = 1, offsetRow = 0\<rparr>),
          \<lparr>cellsH = [\<lparr>colspan = 2, rowspan = 1, fragment = 0\<rparr>,
                     \<lparr>colspan = 1, rowspan = 1, fragment = 1\<rparr>,
                     \<lparr>colspan = 1, rowspan = 1, fragment = 2\<rparr>],
            rowsH = [[2, 0, 1]], fragsH = [[Component 0], [Component 1], [BrComponent]],
            bodies = [0], dirtied = False\<rparr>)"
  by code_simp

theorem addColumnToLeft_by_row_witness:
  "element (cellsPosition (hd (fst (serialize wideFirstCell)))) (Some 2)
      = Some (positionOf wideFirstCell 0 2)
   \<and> offsetRow (positionOf wideFirstCell 0 2) = 0
   \<and> cell (positionOf wideFirstCell 0 2) \<in> set (rowsH wideFirstCell ! row (positionOf wideFirstCell 0 2))
   \<and> addColumnToLeftRow (Some 2) (hd (fst (serialize wideFirstCell))) wideFirstCell
       = Inr \<lparr>cellsH = [\<lparr>colspan = 2, rowspan = 1, fragment = 0\<rparr>,
                       \<lparr>colspan = 1, rowspan = 1, fragment = 1\<rparr>,
                       \<lparr>colspan = 1, rowspan = 1, fragment = 2\<rparr>],
              rowsH = [[0, 2, 1]], fragsH = [[Component 0], [Component 1], [BrComponent]],
              bodies = [0], dirtied = False\<rparr>
   \<and> params (commanderOn (Separate (positionOf wideFirstCell 0 0) (positionOf wideFirstCell 0 1)))
       = Some (Separate (positionOf wideFirstCell 0 0) (positionOf wideFirstCell 0 1))
   \<and> forEach (addColumnToLeftRow
         (columnIndex (startPosition (Separate (positionOf wideFirstCell 0 0) (positionOf wideFirstCell 0 1)))))
         (fst (serialize wideFirstCell)) (snd (serialize wideFirstCell))
       = Inr \<lparr>cellsH = [\<lparr>colspan = 2, rowspan = 1, fragment = 0\<rparr>,
                     \<lparr>colspan = 1, rowspan = 1, fragment = 1\<rparr>,
                     \<lparr>colspan = 1, rowspan = 1, fragment = 2\<rparr>],
            rowsH = [[2, 0, 1]], fragsH = [[Component 0], [Component 1], [BrComponent]],
            bodies = [0], dirtied = False\<rparr>"
proof -
  let ?p = "positionOf wideFirstCell 0 2"
  let ?rw = "hd (fst (serialize wideFirstCell))"
  let ?rng = "Separate (positionOf wideFirstCell 0 0) (positionOf wideFirstCell 0 1)"
  have p: "?p = \<lparr>beforeCell = Some 0, afterCell = None, row = 0, cell = 1,
            rowIndex = Some 0, columnIndex = Some 2, offsetColumn = 0, offsetRow = 0\<rparr>"
    by (simp add: serialize_wideFirstCell positionOf_def)
  have h1: "element (cellsPosition ?rw) (Some 2) = Some ?p"
    by (simp add: serialize_wideFirstCell positionOf_def element_def)
  have h2: "offsetRow ?p = 0" "cell ?p \<in> set (rowsH wideFirstCell ! row ?p)"
    unfolding p by (simp_all add: wideFirstCell_eq)
  have h3: "Some 2 = Some 0 \<or> 0 < offsetColumn ?p
           \<or> (offsetRow ?p = 0 \<and> cell ?p \<in> set (rowsH wideFirstCell ! row ?p))"
    using h2 by simp
  have h4: "params (commanderOn ?rng) = Some ?rng"
    by (simp add: commanderOn_def)
  note inst = addColumnToLeft_by_row [OF h1 h3]
  have r1: "addColumnToLeftRow (Some 2) ?rw wideFirstCell
       = Inr \<lparr>cellsH = [\<lparr>colspan = 2, rowspan = 1, fragment = 0\<rparr>,
                       \<lparr>colspan = 1, rowspan = 1, fragment = 1\<rparr>,
                       \<lparr>colspan = 1, rowspan = 1, fragment = 2\<rparr>],
              rowsH = [[0, 2, 1]], fragsH = [[Component 0], [Component 1], [BrComponent]],
              bodies = [0], dirtied = False\<rparr>"
    using inst unfolding p by (simp add: wideFirstCell_eq)
  have r2: "forEach (addColumnToLeftRow (columnIndex (startPosition ?rng)))
         (fst (serialize wideFirstCell)) (snd (serialize wideFirstCell))
       = Inr \<lparr>cellsH = [\<lparr>colspan = 2, rowspan = 1, fragment = 0\<rparr>,
                     \<lparr>colspan = 1, rowspan = 1, fragment = 1\<rparr>,
                     \<lparr>colspan = 1, rowspan = 1, fragment = 2\<rparr>],
            rowsH = [[2, 0, 1]], fragsH = [[Component 0], [Component 1], [BrComponent]],
            bodies = [0], dirtied = False\<rparr>"
    using inst h4 addColumnToLeft_wideFirstCell by blast
  show ?thesis using h1 h2 h4 r1 r2 by blast
qed

text \<open>
  The claim as it is written fails for the selection of one cell of two columns: the
  start and the end position are two objects that hold the same cell, and the column
  index of the end position stays \<open>1\<close>.
\<close>

theorem addColumnToLeft_end_index_counterexample:
  "columnIndex (positionOf wideFirstCell 0 1) = Some 1
   \<and> addColumnToLeft
        (commanderOn (Separate (positionOf wideFirstCell 0 0) (positionOf wideFirstCell 0 1)))
        wideFirstCell
      = Inr (commanderOn (Separate
            \<lparr>beforeCell = None, afterCell = Some 1, row = 0, cell = 0,
               rowIndex = Some 0, columnIndex = Some 1, offsetColumn = 0, offsetRow = 0\<rparr>
            \<lparr>beforeCell = None, afterCell = Some 1, row = 0, cell = 0,
               rowIndex = Some 0, columnIndex = Some 1, offsetColumn = 1, offsetRow = 0\<rparr>),
          \<lparr>cellsH = [\<lparr>colspan = 2, rowspan = 1, fragment = 0\<rparr>,
                     \<lparr>colspan = 1, rowspan = 1, fragment = 1\<rparr>,
                     \<lparr>colspan = 1, rowspan = 1, fragment = 2\<rparr>],
            rowsH = [[2, 0, 1]], fragsH = [[Component 0], [Component 1], [BrComponent]],
            bodies = [0], dirtied = False\<rparr>)"
  using addColumnToLeft_wideFirstCell
  by (simp add: positionOf_def serialize_wideFirstCell)

section \<open>DeleteTopRow\<close>

text \<open>
  Claim C8, amended. \<open>deleteTopRow\<close> with a start row index other than \<open>0\<close> visits every
  position of the matrix row above the rectangle's top (\<open>prevRow\<close>), in order, each with
  its column, then removes the row array of \<open>prevRow\<close> from \<open>bodies\<close>, and the cells it holds
  leave the grid with it; the row index of the start position is one less afterwards,
  and so is that of the end position unless the two are two objects that hold the same
  cell. For a position \<open>p\<close> of \<open>prevRow\<close> that starts a cell (\<open>offsetColumn = 0\<close>,
  \<open>offsetRow = 0\<close>) with \<open>rowspan > 1\<close>, the visit creates a new cell with \<open>rowspan - 1\<close> rows,
  the same \<open>colspan\<close> and a fresh fragment, and puts it into the row array of the position
  \<open>q\<close> below: immediately before the \<open>afterCell\<close> of \<open>q\<close>, or at the end when \<open>q\<close> has none.
  The cell itself keeps its spans.
\<close>

theorem deleteTopRow_by_cell:
  assumes "positionAt m index j = Inr (Some q)"
    and "offsetColumn p = 0" and "offsetRow p = 0" and "1 < rowspan (cellsH t ! cell p)"
  shows "deleteTopRowCell m index (j, p) t = Inr
           (t\<lparr>cellsH := cellsH t @
                 [\<lparr>colspan = colspan (cellsH t ! cell p),
                   rowspan = rowspan (cellsH t ! cell p) - 1, fragment = length (fragsH t)\<rparr>],
              fragsH := fragsH t @ [[BrComponent]],
              rowsH := (rowsH t)[row q :=
                (case afterCell q of
                   None \<Rightarrow> rowsH t ! row q @ [length (cellsH t)]
                 | Some a \<Rightarrow>
                     if a \<in> set (rowsH t ! row q)
                     then takeWhile (\<lambda>k. k \<noteq> a) (rowsH t ! row q)
                            @ length (cellsH t) # dropWhile (\<lambda>k. k \<noteq> a) (rowsH t ! row q)
                     else splice (- 1) 0 [length (cellsH t)] (rowsH t ! row q))]\<rparr>)
       \<and> (\<forall>cmd u rng prevRow.
             params cmd = Some rng \<and> rowIndex (startPosition rng) \<noteq> Some 0
             \<and> element (fst (serialize u)) (Some (toNumber (rowIndex (startPosition rng)) - 1))
                 = Some prevRow
             \<and> cells prevRow \<in> set (bodies u) \<longrightarrow>
             deleteTopRow cmd u =
               (case forEach (deleteTopRowCell (fst (serialize u)) (rowIndex (startPosition rng)))
                       (enumerate 0 (cellsPosition prevRow)) (snd (serialize u)) of
                  Inl e \<Rightarrow> Inl e
                | Inr u2 \<Rightarrow>
                    Inr (cmd\<lparr>params := Some
                          (case rng of
                            Shared q \<Rightarrow> Shared (q\<lparr>rowIndex := Some (toNumber (rowIndex q) - 1)\<rparr>)
                          | Separate s e \<Rightarrow>
                              Separate (s\<lparr>rowIndex := Some (toNumber (rowIndex s) - 1)\<rparr>)
                                (if cell s = cell e then e
                                 else e\<lparr>rowIndex := Some (toNumber (rowIndex e) - 1)\<rparr>))\<rparr>,
                         u2\<lparr>bodies := remove1 (cells prevRow) (bodies u)\<rparr>)))"
proof -
  have cellwise: "deleteTopRowCell m index (j, p) t = Inr
           (t\<lparr>cellsH := cellsH t @
                 [\<lparr>colspan = colspan (cellsH t ! cell p),
                   rowspan = rowspan (cellsH t ! cell p) - 1, fragment = length (fragsH t)\<rparr>],
              fragsH := fragsH t @ [[BrComponent]],
              rowsH := (rowsH t)[row q :=
                (case afterCell q of
                   None \<Rightarrow> rowsH t ! row q @ [length (cellsH t)]
                 | Some a \<Rightarrow>
                     if a \<in> set (rowsH t ! row q)
                     then takeWhile (\<lambda>k. k \<noteq> a) (rowsH t ! row q)
                            @ length (cellsH t) # dropWhile (\<lambda>k. k \<noteq> a) (rowsH t ! row q)
                     else splice (- 1) 0 [length (cellsH t)] (rowsH t ! row q))]\<rparr>)"
    using assms
    by (cases "afterCell q")
       (auto simp: deleteTopRowCell_def replaceBelow_def createCell_eq updateRow_def
          splice_before indexOf_absent)
  have whole: "deleteTopRow cmd u =
               (case forEach (deleteTopRowCell (fst (serialize u)) (rowIndex (startPosition rng)))
                       (enumerate 0 (cellsPosition prevRow)) (snd (serialize u)) of
                  Inl e \<Rightarrow> Inl e
                | Inr u2 \<Rightarrow>
                    Inr (cmd\<lparr>params := Some
                          (case rng of
                            Shared q \<Rightarrow> Shared (q\<lparr>rowIndex := Some (toNumber (rowIndex q) - 1)\<rparr>)
                          | Separate s e \<Rightarrow>
                              Separate (s\<lparr>rowIndex := Some (toNumber (rowIndex s) - 1)\<rparr>)
                                (if cell s = cell e then e
                                 else e\<lparr>rowIndex := Some (toNumber (rowIndex e) - 1)\<rparr>))\<rparr>,
                         u2\<lparr>bodies := remove1 (cells prevRow) (bodies u)\<rparr>))"
    if h: "params cmd = Some rng" "rowIndex (startPosition rng) \<noteq> Some 0"
       "element (fst (serialize u)) (Some (toNumber (rowIndex (startPosition rng)) - 1)) = Some prevRow"
       "cells prevRow \<in> set (bodies u)" for cmd u rng prevRow
  proof -
    have sh: "shiftRowIndex (- 1) rng = (case rng of
                            Shared q \<Rightarrow> Shared (q\<lparr>rowIndex := Some (toNumber (rowIndex q) - 1)\<rparr>)
                          | Separate s e \<Rightarrow>
                              Separate (s\<lparr>rowIndex := Some (toNumber (rowIndex s) - 1)\<rparr>)
                                (if cell s = cell e then e
                                 else e\<lparr>rowIndex := Some (toNumber (rowIndex e) - 1)\<rparr>))"
      by (cases rng) (simp_all add: shiftRowIndex_def Let_def)
    have b1: "bodies (snd (serialize u)) = bodies u" by (rule serialize_bodies)
    have rm: "removeRow (cells prevRow) u2 = u2\<lparr>bodies := remove1 (cells prevRow) (bodies u)\<rparr>"
      if f: "forEach (deleteTopRowCell (fst (serialize u)) (rowIndex (startPosition rng)))
               (enumerate 0 (cellsPosition prevRow)) (snd (serialize u)) = Inr u2" for u2
    proof -
      have "bodies u2 = bodies (snd (serialize u))"
        by (rule forEach_invariant [OF f, where P = "\<lambda>x. bodies x = bodies (snd (serialize u))"])
           (auto dest: deleteTopRowCell_bodies)
      then show ?thesis using splice_remove1 [OF h(4)] by (simp add: removeRow_def b1)
    qed
    show ?thesis
      using h(1,2,3) rm unfolding sh [symmetric]
      by (auto simp: deleteTopRow_def split_beta split: sum.splits)
  qed
  show ?thesis using cellwise whole by blast
qed

lemma tallFirstCell_eq:
  "tallFirstCell = \<lparr>cellsH = [\<lparr>colspan = 1, rowspan = 2, fragment = 0\<rparr>,
       \<lparr>colspan = 1, rowspan = 1, fragment = 1\<rparr>, \<lparr>colspan = 1, rowspan = 1, fragment = 2\<rparr>],
     rowsH = [[0, 1], [2]], fragsH = [[Component 0], [Component 1], [Component 2]],
     bodies = [0, 1], dirtied = False\<rparr>"
  by code_simp

lemma serialize_tallFirstCell:
  "serialize tallFirstCell = ([\<lparr>cells = 0, beforeRow = None, afterRow = Some 1,
      cellsPosition =
        [\<lparr>beforeCell = None, afterCell = Some 1, row = 0, cell = 0,
            rowIndex = Some 0, columnIndex = Some 0, offsetColumn = 0, offsetRow = 0\<rparr>,
         \<lparr>beforeCell = Some 0, afterCell = None, row = 0, cell = 1,
            rowIndex = Some 0, columnIndex = Some 1, offsetColumn = 0, offsetRow = 0\<rparr>]\<rparr>,
   \<lparr>cells = 1, beforeRow = Some 0, afterRow = None,
      cellsPosition =
        [\<lparr>beforeCell = None, afterCell = Some 2, row = 1, cell = 0,
            rowIndex = Some 1, columnIndex = Some 0, offsetColumn = 0, offsetRow = 1\<rparr>,
         \<lparr>beforeCell = None, afterCell = None, row = 1, cell = 2,
            rowIndex = Some 1, columnIndex = Some 1, offsetColumn = 0, offsetRow = 0\<rparr>]\<rparr>],
     tallFirstCell)"
  by code_simp

lemma deleteTopRow_tallFirstCell:
  "deleteTopRow (commanderOn (Shared (positionOf tallFirstCell 1 1))) tallFirstCell
     = Inr (commanderOn (Shared \<lparr>beforeCell = None, afterCell = None, row = 1, cell = 2,
                 rowIndex = Some 0, columnIndex = Some 1, offsetColumn = 0, offsetRow = 0\<rparr>),
      \<lparr>cellsH =
         [\<lparr>colspan = 1, rowspan = 2, fragment = 0\<rparr>, \<lparr>colspan = 1, rowspan = 0, fragment = 1\<rparr>,
          \<lparr>colspan = 1, rowspan = 1, fragment = 2\<rparr>, \<lparr>colspan = 1, rowspan = 1, fragment = 3\<rparr>],
         rowsH = [[0, 1], [3, 2]],
         fragsH = [[Component 0], [Component 1], [Component 2], [BrComponent]],
         bodies = [1], dirtied = False\<rparr>)"
  by code_simp

lemma deleteTopRow_tallFirstCell_row:
  "forEach (deleteTopRowCell (fst (serialize tallFirstCell)) (Some 1))
      (enumerate 0 (cellsPosition (hd (fst (serialize tallFirstCell)))))
      (snd (serialize tallFirstCell))
   = Inr \<lparr>cellsH =
          [\<lparr>colspan = 1, rowspan = 2, fragment = 0\<rparr>, \<lparr>colspan = 1, rowspan = 0, fragment = 1\<rparr>,
           \<lparr>colspan = 1, rowspan = 1, fragment = 2\<rparr>, \<lparr>colspan = 1, rowspan = 1, fragment = 3\<rparr>],
          rowsH = [[0, 1], [3, 2]],
          fragsH = [[Component 0], [Component 1], [Component 2], [BrComponent]],
          bodies = [0, 1], dirtied = False\<rparr>"
  by code_simp

theorem deleteTopRow_by_cell_witness:
  "positionAt (fst (serialize tallFirstCell)) (Some 1) 0 = Inr (Some (positionOf tallFirstCell 1 0))
   \<and> offsetColumn (positionOf tallFirstCell 0 0) = 0
   \<and> offsetRow (positionOf tallFirstCell 0 0) = 0
   \<and> 1 < rowspan (cellsH tallFirstCell ! cell (positionOf tallFirstCell 0 0))
   \<and> deleteTopRowCell (fst (serialize tallFirstCell)) (Some 1) (0, positionOf tallFirstCell 0 0)
        tallFirstCell
      = Inr \<lparr>cellsH =
          [\<lparr>colspan = 1, rowspan = 2, fragment = 0\<rparr>, \<lparr>colspan = 1, rowspan = 1, fragment = 1\<rparr>,
           \<lparr>colspan = 1, rowspan = 1, fragment = 2\<rparr>, \<lparr>colspan = 1, rowspan = 1, fragment = 3\<rparr>],
          rowsH = [[0, 1], [3, 2]],
          fragsH = [[Component 0], [Component 1], [Component 2], [BrComponent]],
          bodies = [0, 1], dirtied = False\<rparr>
   \<and> params (commanderOn (Shared (positionOf tallFirstCell 1 1)))
        = Some (Shared (positionOf tallFirstCell 1 1))
   \<and> rowIndex (startPosition (Shared (positionOf tallFirstCell 1 1))) \<noteq> Some 0
   \<and> element (fst (serialize tallFirstCell))
        (Some (toNumber (rowIndex (startPosition (Shared (positionOf tallFirstCell 1 1)))) - 1))
       = Some (hd (fst (serialize tallFirstCell)))
   \<and> cells (hd (fst (serialize tallFirstCell))) \<in> set (bodies tallFirstCell)
   \<and> deleteTopRow (commanderOn (Shared (positionOf tallFirstCell 1 1))) tallFirstCell
      = Inr (commanderOn (Shared \<lparr>beforeCell = None, afterCell = None, row = 1, cell = 2,
                 rowIndex = Some 0, columnIndex = Some 1, offsetColumn = 0, offsetRow = 0\<rparr>),
          \<lparr>cellsH =
          [\<lparr>colspan = 1, rowspan = 2, fragment = 0\<rparr>, \<lparr>colspan = 1, rowspan = 0, fragment = 1\<rparr>,
           \<lparr>colspan = 1, rowspan = 1, fragment = 2\<rparr>, \<lparr>colspan = 1, rowspan = 1, fragment = 3\<rparr>],
          rowsH = [[0, 1], [3, 2]],
          fragsH = [[Component 0], [Component 1], [Component 2], [BrComponent]],
          bodies = [1], dirtied = False\<rparr>)"
proof -
  let ?m = "fst (serialize tallFirstCell)"
  let ?p = "positionOf tallFirstCell 0 0"
  let ?q = "positionOf tallFirstCell 1 0"
  let ?rng = "Shared (positionOf tallFirstCell 1 1)"
  have p: "?p = \<lparr>beforeCell = None, afterCell = Some 1, row = 0, cell = 0,
            rowIndex = Some 0, columnIndex = Some 0, offsetColumn = 0, offsetRow = 0\<rparr>"
    and q: "?q = \<lparr>beforeCell = None, afterCell = Some 2, row = 1, cell = 0,
            rowIndex = Some 1, columnIndex = Some 0, offsetColumn = 0, offsetRow = 1\<rparr>"
    and s: "positionOf tallFirstCell 1 1 = \<lparr>beforeCell = None, afterCell = None, row = 1, cell = 2,
            rowIndex = Some 1, columnIndex = Some 1, offsetColumn = 0, offsetRow = 0\<rparr>"
    by (simp_all add: serialize_tallFirstCell positionOf_def)
  have h1: "positionAt ?m (Some 1) 0 = Inr (Some ?q)"
    by (simp add: serialize_tallFirstCell positionOf_def positionAt_def element_def)
  have h2: "offsetColumn ?p = 0" "offsetRow ?p = 0" "1 < rowspan (cellsH tallFirstCell ! cell ?p)"
    unfolding p by (simp_all add: tallFirstCell_eq)
  have h3: "params (commanderOn ?rng) = Some ?rng" by (simp add: commanderOn_def)
  have h4: "rowIndex (startPosition ?rng) \<noteq> Some 0" unfolding s by simp
  have h5: "element ?m (Some (toNumber (rowIndex (startPosition ?rng)) - 1)) = Some (hd ?m)"
    unfolding s by (simp add: serialize_tallFirstCell element_def toNumber_def)
  have h6: "cells (hd ?m) \<in> set (bodies tallFirstCell)"
    by (simp add: serialize_tallFirstCell) (simp add: tallFirstCell_eq)
  have h7: "rowIndex (startPosition ?rng) = Some 1" unfolding s by simp
  have h8: "remove1 (cells (hd ?m)) (bodies tallFirstCell) = [1]"
    by (simp add: serialize_tallFirstCell) (simp add: tallFirstCell_eq)
  note inst = deleteTopRow_by_cell [OF h1 h2]
  have r1: "deleteTopRowCell ?m (Some 1) (0, ?p) tallFirstCell
      = Inr \<lparr>cellsH =
          [\<lparr>colspan = 1, rowspan = 2, fragment = 0\<rparr>, \<lparr>colspan = 1, rowspan = 1, fragment = 1\<rparr>,
           \<lparr>colspan = 1, rowspan = 1, fragment = 2\<rparr>, \<lparr>colspan = 1, rowspan = 1, fragment = 3\<rparr>],
          rowsH = [[0, 1], [3, 2]],
          fragsH = [[Component 0], [Component 1], [Component 2], [BrComponent]],
          bodies = [0, 1], dirtied = False\<rparr>"
    using inst unfolding p q by (simp add: tallFirstCell_eq)
  have "deleteTopRow (commanderOn ?rng) tallFirstCell =
          (case forEach (deleteTopRowCell ?m (rowIndex (startPosition ?rng)))
                  (enumerate 0 (cellsPosition (hd ?m))) (snd (serialize tallFirstCell)) of
             Inl e \<Rightarrow> Inl e
           | Inr u2 \<Rightarrow>
               Inr ((commanderOn ?rng)\<lparr>params := Some
                      (case ?rng of
                         Shared q \<Rightarrow> Shared (q\<lparr>rowIndex := Some (toNumber (rowIndex q) - 1)\<rparr>)
                       | Separate s e \<Rightarrow>
                           Separate (s\<lparr>rowIndex := Some (toNumber (rowIndex s) - 1)\<rparr>)
                             (if cell s = cell e then e
                              else e\<lparr>rowIndex := Some (toNumber (rowIndex e) - 1)\<rparr>))\<rparr>,
                    u2\<lparr>bodies := remove1 (cells (hd ?m)) (bodies tallFirstCell)\<rparr>))"
    using inst h3 h4 h5 h6 by blast
  note d = this [unfolded h7, unfolded h8 deleteTopRow_tallFirstCell_row, unfolded s]
  have r2: "deleteTopRow (commanderOn ?rng) tallFirstCell
      = Inr (commanderOn (Shared \<lparr>beforeCell = None, afterCell = None, row = 1, cell = 2,
                 rowIndex = Some 0, columnIndex = Some 1, offsetColumn = 0, offsetRow = 0\<rparr>),
          \<lparr>cellsH =
          [\<lparr>colspan = 1, rowspan = 2, fragment = 0\<rparr>, \<lparr>colspan = 1, rowspan = 0, fragment = 1\<rparr>,
           \<lparr>colspan = 1, rowspan = 1, fragment = 2\<rparr>, \<lparr>colspan = 1, rowspan = 1, fragment = 3\<rparr>],
          rowsH = [[0, 1], [3, 2]],
          fragsH = [[Component 0], [Component 1], [Component 2], [BrComponent]],
          bodies = [1], dirtied = False\<rparr>)"
    unfolding s d by (simp add: commanderOn_def toNumber_def)
  show ?thesis using h1 h2 h3 h4 h5 h6 r1 r2 by blast
qed

text \<open>
  The claim as it is written fails in its own scenario: the cell of two rows (cell \<open>0\<close>)
  keeps \<open>rowspan = 2\<close> and leaves the grid with its row; the cell in its place (cell \<open>3\<close>)
  is a new one with a fresh fragment.
\<close>

theorem deleteTopRow_tall_cell_counterexample:
  "cellsOfGrid tallFirstCell = [0, 1, 2]
   \<and> rowspan (cellsH tallFirstCell ! 0) = 2
   \<and> deleteTopRow (commanderOn (Shared (positionOf tallFirstCell 1 1))) tallFirstCell
     = Inr (commanderOn (Shared \<lparr>beforeCell = None, afterCell = None, row = 1, cell = 2,
                 rowIndex = Some 0, columnIndex = Some 1, offsetColumn = 0, offsetRow = 0\<rparr>),
      \<lparr>cellsH =
         [\<lparr>colspan = 1, rowspan = 2, fragment = 0\<rparr>, \<lparr>colspan = 1, rowspan = 0, fragment = 1\<rparr>,
          \<lparr>colspan = 1, rowspan = 1, fragment = 2\<rparr>, \<lparr>colspan = 1, rowspan = 1, fragment = 3\<rparr>],
         rowsH = [[0, 1], [3, 2]],
         fragsH = [[Component 0], [Component 1], [Component 2], [BrComponent]],
         bodies = [1], dirtied = False\<rparr>)
   \<and> cellsOfGrid \<lparr>cellsH =
         [\<lparr>colspan = 1, rowspan = 2, fragment = 0\<rparr>, \<lparr>colspan = 1, rowspan = 0, fragment = 1\<rparr>,
          \<lparr>colspan = 1, rowspan = 1, fragment = 2\<rparr>, \<lparr>colspan = 1, rowspan = 1, fragment = 3\<rparr>],
         rowsH = [[0, 1], [3, 2]],
         fragsH = [[Component 0], [Component 1], [Component 2], [BrComponent]],
         bodies = [1], dirtied = False\<rparr> = [3, 2]"
  using deleteTopRow_tallFirstCell
  by (simp add: cellsOfGrid_def tallFirstCell_eq)

section \<open>MergeCells followed by SplitCells\<close>

text \<open>
  The scenario of the specification: on four \<open>1\<times>1\<close> cells in two rows, \<open>MergeCells\<close> over
  the whole table leaves one cell of two rows and two columns, and \<open>SplitCells\<close> on it
  leaves four \<open>1\<times>1\<close> cells in two rows again.
\<close>

definition twoByTwoMerged :: TableComponent where
  "twoByTwoMerged = \<lparr>cellsH = [\<lparr>colspan = 2, rowspan = 2, fragment = 0\<rparr>,
       \<lparr>colspan = 1, rowspan = 1, fragment = 1\<rparr>, \<lparr>colspan = 1, rowspan = 1, fragment = 2\<rparr>,
       \<lparr>colspan = 1, rowspan = 1, fragment = 3\<rparr>],
     rowsH = [[0], []], fragsH = [[Component 0], [Component 1], [Component 2], [Component 3]],
     bodies = [0], dirtied = False\<rparr>"

definition twoByTwoRange :: TableEditRange where
  "twoByTwoRange = Separate
     \<lparr>beforeCell = None, afterCell = Some 1, row = 0, cell = 0,
       rowIndex = Some 0, columnIndex = Some 0, offsetColumn = 0, offsetRow = 0\<rparr>
     \<lparr>beforeCell = Some 2, afterCell = None, row = 1, cell = 3,
       rowIndex = Some 1, columnIndex = Some 1, offsetColumn = 0, offsetRow = 0\<rparr>"

definition mergedRange :: TableEditRange where
  "mergedRange = Separate
     \<lparr>beforeCell = None, afterCell = None, row = 0, cell = 0,
       rowIndex = Some 0, columnIndex = Some 0, offsetColumn = 0, offsetRow = 0\<rparr>
     \<lparr>beforeCell = None, afterCell = None, row = 2, cell = 0,
       rowIndex = Some 1, columnIndex = Some 1, offsetColumn = 1, offsetRow = 1\<rparr>"

lemma twoByTwo_positions:
  "Separate (positionOf twoByTwo 0 0) (positionOf twoByTwo 1 1) = twoByTwoRange"
  by code_simp

lemma twoByTwo_serialize: "snd (serialize twoByTwo) = twoByTwo"
  by code_simp

lemma twoByTwo_store:
  "mergeCellsStore twoByTwoRange (fst (serialize twoByTwo)) twoByTwo = Inr (0, twoByTwoMerged)"
  by code_simp

lemma twoByTwo_select:
  "selectCells 0 0 twoByTwoMerged
     = Some (Inr \<lparr>startCellPosition = startPosition mergedRange,
                  endCellPosition = endPosition mergedRange, selectedCells = [0]\<rparr>,
             twoByTwoMerged\<lparr>rowsH := [[0], [], []]\<rparr>)"
  by code_simp

lemma twoByTwo_merge:
  "mergeCells (commanderOn twoByTwoRange) twoByTwo
     = Some (Inr (commanderOn mergedRange, twoByTwoMerged\<lparr>rowsH := [[0], [], []]\<rparr>))"
  using twoByTwo_serialize
  by (simp add: mergeCells_def split_beta twoByTwo_store twoByTwo_select commanderOn_def)
     (simp add: twoByTwoRange_def mergedRange_def)

lemma twoByTwo_split_cells:
  "spans (each splitCellsCell
       (concat (map (\<lambda>rw. slice 0 (1 + 1) (cellsPosition rw))
          (slice 0 (1 + 1) (fst (serialize (twoByTwoMerged\<lparr>rowsH := [[0], [], []]\<rparr>))))))
       (snd (serialize (twoByTwoMerged\<lparr>rowsH := [[0], [], []]\<rparr>))))
     = [[(1, 1), (1, 1)], [(1, 1), (1, 1)]]"
  "matrixShape (each splitCellsCell
       (concat (map (\<lambda>rw. slice 0 (1 + 1) (cellsPosition rw))
          (slice 0 (1 + 1) (fst (serialize (twoByTwoMerged\<lparr>rowsH := [[0], [], []]\<rparr>))))))
       (snd (serialize (twoByTwoMerged\<lparr>rowsH := [[0], [], []]\<rparr>))))
     = [2, 2]"
  by code_simp+

lemma twoByTwo_split:
  "map_sum id (\<lambda>(cmd, t). (spans t, matrixShape t))
     (splitCells (commanderOn mergedRange) (twoByTwoMerged\<lparr>rowsH := [[0], [], []]\<rparr>))
     = Inr ([[(1, 1), (1, 1)], [(1, 1), (1, 1)]], [2, 2])"
  using twoByTwo_split_cells
  by (simp add: splitCells_def split_beta commanderOn_def mergedRange_def toNumber_def)

lemma split_after_merge_two_by_two:
  "(spans twoByTwo, matrixShape twoByTwo) = ([[(1, 1), (1, 1)], [(1, 1), (1, 1)]], [2, 2])
   \<and> map_option (map_sum id (\<lambda>(cmd, t). (spans t, matrixShape t)))
        (mergeCells (commanderOn (Separate (positionOf twoByTwo 0 0) (positionOf twoByTwo 1 1))) twoByTwo)
      = Some (Inr ([[(2, 2)]], [2, 2]))
   \<and> map_option (map_sum id (\<lambda>(cmd, t). (spans t, matrixShape t)))
        (mergeThenSplit
           (commanderOn (Separate (positionOf twoByTwo 0 0) (positionOf twoByTwo 1 1))) twoByTwo)
      = Some (Inr ([[(1, 1), (1, 1)], [(1, 1), (1, 1)]], [2, 2]))"
proof -
  have a: "(spans twoByTwo, matrixShape twoByTwo) = ([[(1, 1), (1, 1)], [(1, 1), (1, 1)]], [2, 2])"
    by code_simp
  have b: "(spans (twoByTwoMerged\<lparr>rowsH := [[0], [], []]\<rparr>),
            matrixShape (twoByTwoMerged\<lparr>rowsH := [[0], [], []]\<rparr>)) = ([[(2, 2)]], [2, 2])"
    by code_simp
  show ?thesis
    unfolding twoByTwo_positions
    using a b twoByTwo_split
    by (simp add: twoByTwo_merge mergeThenSplit_def)
qed

text \<open>
  Claim C5 says that \<open>SplitCells\<close> after \<open>MergeCells\<close> restores the bounding rectangle and
  the number of cells. On three rows of one \<open>1\<times>1\<close> cell each, merging the first two rows
  empties the second row array, \<open>mergeCells\<close> removes it from \<open>bodies\<close>, and the third row
  moves up beside the lower half of the merged cell. After \<open>SplitCells\<close> the grid has two
  rows, of one and of two cells: three cells, but not the table of three rows and one
  column it was.
\<close>

theorem split_after_merge_three_rows:
  "(spans threeRows, matrixShape threeRows) = ([[(1, 1)], [(1, 1)], [(1, 1)]], [1, 1, 1])
   \<and> map_option (map_sum id (\<lambda>(cmd, t). (spans t, matrixShape t)))
        (mergeThenSplit
           (commanderOn (Separate (positionOf threeRows 0 0) (positionOf threeRows 1 0))) threeRows)
      = Some (Inr ([[(1, 1)], [(1, 1), (1, 1)]], [1, 2]))"
  by code_simp

section \<open>AddColumnToLeft followed by DeleteLeftColumn\<close>

text \<open>
  Claim C7 says that \<open>DeleteLeftColumn\<close> after \<open>AddColumnToLeft\<close> restores the column count
  and the spans of every cell. In \<open>mixedSpans\<close> the second cell of the first row spans two
  rows, and the target column is its column. In the second row the position of that column
  belongs to the cell above, which is not in the row array: \<open>indexOf\<close> is \<open>-1\<close> and the new
  cell goes before the last cell of the row instead of to the target column. The deletion
  then meets the cell of two columns (cell \<open>6\<close>) in the column it removes and replaces it
  by a new cell of one column: the grid has five columns again, but cell \<open>6\<close> is gone and
  the second row holds four cells of one column.
\<close>

theorem add_then_delete_left_mixedSpans:
  "(spans mixedSpans, matrixShape mixedSpans)
      = ([[(1, 1), (2, 1), (1, 1), (1, 1), (1, 1)], [(1, 1), (1, 2), (1, 1)]], [5, 5])
   \<and> cellsOfGrid mixedSpans = [0, 1, 2, 3, 4, 5, 6, 7]
   \<and> map_sum id (\<lambda>(cmd, t). (spans t, matrixShape t, cellsOfGrid t))
        (addThenDeleteLeft
           (commanderOn (Separate (positionOf mixedSpans 0 1) (positionOf mixedSpans 1 1))) mixedSpans)
      = Inr ([[(1, 1), (2, 1), (1, 1), (1, 1), (1, 1)], [(1, 1), (1, 1), (1, 1), (1, 1)]], [5, 5],
             [0, 1, 2, 3, 4, 5, 10, 9, 7])"
  by code_simp

section \<open>MergeCells\<close>

subsection \<open>The positions that start a cell\<close>

text \<open>
  The positions of a matrix row with \<open>offsetRow = offsetColumn = 0\<close> are, in order, the
  cells of the row array the row was seeded from; the rows \<open>serialize\<close> adds have none.
\<close>

definition isAnchor :: "TableCellPosition \<Rightarrow> bool" where
  "isAnchor p = (offsetRow p = 0 \<and> offsetColumn p = 0)"

definition pairOf :: "TableCellPosition \<Rightarrow> nat \<times> nat" where
  "pairOf p = (row p, cell p)"

definition anchorsOf :: "TableRowPosition \<Rightarrow> (nat \<times> nat) list" where
  "anchorsOf rw = map pairOf (filter isAnchor (cellsPosition rw))"

definition sameAnchors :: "TableRowPosition list \<Rightarrow> TableRowPosition list \<Rightarrow> bool" where
  "sameAnchors rws rws' = (\<exists>k. map anchorsOf rws' = map anchorsOf rws @ replicate k [])"

lemma sameAnchors_refl: "sameAnchors rws rws"
  unfolding sameAnchors_def by (rule exI [of _ 0]) simp

lemma sameAnchors_trans: "sameAnchors a b \<Longrightarrow> sameAnchors b c \<Longrightarrow> sameAnchors a c"
  unfolding sameAnchors_def by (metis append.assoc replicate_add)

lemma filter_update_same:
  assumes "i < length xs \<Longrightarrow> P y = P (xs ! i) \<and> f y = f (xs ! i)"
  shows "map f (filter P (xs[i := y])) = map f (filter P xs)"
  using assms
proof (induction xs arbitrary: i)
  case Nil
  then show ?case by simp
next
  case (Cons x xs)
  then show ?case by (cases i) auto
qed

lemma filter_splice_insert: "\<not> P q \<Longrightarrow> filter P (splice i 0 [q] ps) = filter P ps"
proof -
  assume "\<not> P q"
  then have "filter P (splice i 0 [q] ps)
      = filter P (take (relIndex ps i) ps) @ filter P (drop (relIndex ps i) ps)"
    by (simp add: splice_def Let_def)
  also have "\<dots> = filter P (take (relIndex ps i) ps @ drop (relIndex ps i) ps)"
    by (simp only: filter_append)
  finally show ?thesis by simp
qed

lemma anchorsOf_setCellsPosition:
  assumes "r < length rws"
    and "map pairOf (filter isAnchor ps) = anchorsOf (rws ! r)"
  shows "map anchorsOf (setCellsPosition r ps rws) = map anchorsOf rws"
proof -
  have "map anchorsOf (setCellsPosition r ps rws) = (map anchorsOf rws)[r := anchorsOf (rws ! r)]"
    using assms by (simp add: setCellsPosition_def map_update anchorsOf_def)
  then show ?thesis using assms(1) by (simp add: list_update_same_conv)
qed

lemma spanRight_anchors:
  assumes "r < length (rowsS st)"
  shows "map anchorsOf (rowsS (spanRight cs c r p st)) = map anchorsOf (rowsS st)"
proof (cases "int (offsetColumn p) + 1 < colspan (cs ! cell p) \<and> (r, c + 1) \<notin> set (marksS st)")
  case False
  then have "spanRight cs c r p st = st" unfolding spanRight_def by (rule if_not_P)
  then show ?thesis by simp
next
  case True
  define q where "q = \<lparr>beforeCell = beforeCell p, afterCell = afterCell p, row = cells (rowsS st ! r),
                  cell = cell p, rowIndex = Some (int r), columnIndex = Some (int c),
                  offsetColumn = offsetColumn p + 1, offsetRow = offsetRow p\<rparr>"
  have eq: "rowsS (spanRight cs c r p st)
      = setCellsPosition r (splice (int c + 1) 0 [q] (cellsPosition (rowsS st ! r))) (rowsS st)"
    using True by (simp add: spanRight_def Let_def q_def)
  have "\<not> isAnchor q" by (simp add: isAnchor_def q_def)
  then show ?thesis
    unfolding eq using assms
    by (intro anchorsOf_setCellsPosition) (simp_all add: filter_splice_insert anchorsOf_def)
qed

lemma spanDown_anchors:
  assumes "r < length (rowsS st)"
  shows "sameAnchors (rowsS st) (rowsS (spanDown cs c r p st))"
proof (cases "int (offsetRow p) + 1 < rowspan (cs ! cell p) \<and> (r + 1, c) \<notin> set (marksS st)")
  case False
  then have "spanDown cs c r p st = st" unfolding spanDown_def by (rule if_not_P)
  then show ?thesis by (simp add: sameAnchors_refl)
next
  case True
  define st1 where "st1 = (if r + 1 < length (rowsS st) then st
                    else st\<lparr>rowsS := rowsS st @
                               [(rowsS st ! r)\<lparr>cells := length (arraysS st), cellsPosition := []\<rparr>],
                            arraysS := arraysS st @ [[]]\<rparr>)"
  define nextRow where "nextRow = rowsS st1 ! (r + 1)"
  have len: "r + 1 < length (rowsS st1)" using assms by (simp add: st1_def)
  have s1: "sameAnchors (rowsS st) (rowsS st1)"
  proof (cases "r + 1 < length (rowsS st)")
    case True
    then show ?thesis by (simp add: st1_def sameAnchors_refl)
  next
    case False
    then show ?thesis
      unfolding sameAnchors_def st1_def
      by (intro exI [of _ 1]) (simp add: anchorsOf_def)
  qed
  obtain q where eq: "rowsS (spanDown cs c r p st)
      = setCellsPosition (r + 1) (splice (int c) 0 [q] (cellsPosition nextRow)) (rowsS st1)"
    and q: "offsetRow q = offsetRow p + 1"
    using True by (simp add: spanDown_def Let_def st1_def nextRow_def)
  have "\<not> isAnchor q" using q by (simp add: isAnchor_def)
  then have "map anchorsOf (rowsS (spanDown cs c r p st)) = map anchorsOf (rowsS st1)"
    unfolding eq using len
    by (intro anchorsOf_setCellsPosition)
       (simp_all add: filter_splice_insert anchorsOf_def nextRow_def)
  then show ?thesis using s1 by (simp add: sameAnchors_def)
qed

lemma visit_anchors:
  assumes "r < length (rowsS st)"
  shows "sameAnchors (rowsS st) (rowsS (visit cs c r st))"
proof (cases "c < length (cellsPosition (rowsS st ! r))")
  case False
  then show ?thesis by (simp add: visit_def sameAnchors_refl)
next
  case True
  define ps where "ps = cellsPosition (rowsS st ! r)"
  define p where "p = locate r c (ps ! c)"
  define st1 where "st1 = st\<lparr>rowsS := setCellsPosition r (ps[c := p]) (rowsS st)\<rparr>"
  define st2 where "st2 = spanRight cs c r p st1"
  have v: "rowsS (visit cs c r st) = rowsS (spanDown cs c r p st2)"
    using True by (simp add: visit_def Let_def ps_def p_def st1_def st2_def)
  have "map pairOf (filter isAnchor (ps[c := p])) = map pairOf (filter isAnchor ps)"
    by (rule filter_update_same) (simp add: p_def locate_def isAnchor_def pairOf_def)
  then have a1: "map anchorsOf (rowsS st1) = map anchorsOf (rowsS st)"
    unfolding st1_def using assms
    by (simp add: anchorsOf_setCellsPosition anchorsOf_def ps_def)
  have l1: "r < length (rowsS st1)" using assms by (simp add: st1_def)
  have a2: "map anchorsOf (rowsS st2) = map anchorsOf (rowsS st)"
    unfolding st2_def using spanRight_anchors [OF l1] a1 by simp
  have l2: "r < length (rowsS st2)" using l1 by (simp add: st2_def)
  show ?thesis
    unfolding v using spanDown_anchors [OF l2, of cs c p] a2 by (simp add: sameAnchors_def)
qed

lemma sweepRows_anchors: "sameAnchors (rowsS st) (rowsS (sweepRows cs c r st))"
proof (induction cs c r st rule: sweepRows.induct)
  case (1 cs c r st)
  show ?case
  proof (cases "r < length (rowsS st)")
    case True
    then show ?thesis
      using "1.IH" [OF True] visit_anchors [OF True, of cs c]
      by (subst sweepRows.simps) (auto intro: sameAnchors_trans)
  next
    case False
    then show ?thesis by (subst sweepRows.simps) (simp add: sameAnchors_refl)
  qed
qed

lemma sweepColumns_anchors: "sameAnchors (rowsS st) (rowsS (sweepColumns cs c st))"
proof (induction cs c st rule: sweepColumns.induct)
  case (1 cs c st)
  define st' where "st' = sweepRows cs c 0 (st\<lparr>stopS := False\<rparr>)"
  have a: "sameAnchors (rowsS st) (rowsS st')"
    using sweepRows_anchors [of "st\<lparr>stopS := False\<rparr>" cs c 0] by (simp add: st'_def)
  show ?case
  proof (cases "stopS st'")
    case True
    then show ?thesis
      using "1.IH" [OF st'_def True] a
      by (subst sweepColumns.simps) (auto simp: Let_def st'_def [symmetric] intro: sameAnchors_trans)
  next
    case False
    then show ?thesis
      using a by (subst sweepColumns.simps) (simp add: Let_def st'_def [symmetric])
  qed
qed

lemma anchorsOf_seedRow:
  "anchorsOf (seedRow t i) = map (Pair (bodies t ! i)) (rowsH t ! (bodies t ! i))"
proof -
  have "filter isAnchor (map (seedCell r cs) [0..<length cs]) = map (seedCell r cs) [0..<length cs]"
    for r cs
    by (simp add: isAnchor_def seedCell_def)
  moreover have "map pairOf (map (seedCell r cs) [0..<length cs]) = map (Pair r) cs" for r cs
    by (rule nth_equalityI) (simp_all add: seedCell_def pairOf_def)
  ultimately show ?thesis by (simp add: anchorsOf_def seedRow_def Let_def)
qed

definition gridPairs :: "TableComponent \<Rightarrow> (nat \<times> nat) list" where
  "gridPairs t = concat (map (\<lambda>r. map (Pair r) (rowsH t ! r)) (bodies t))"

lemma serialize_anchors: "concat (map anchorsOf (fst (serialize t))) = gridPairs t"
proof -
  have "map anchorsOf (map (seedRow t) [0..<length (bodies t)])
          = map (\<lambda>r. map (Pair r) (rowsH t ! r)) (bodies t)"
    by (rule nth_equalityI) (simp_all add: anchorsOf_seedRow)
  then obtain k where "map anchorsOf (fst (serialize t))
          = map (\<lambda>r. map (Pair r) (rowsH t ! r)) (bodies t) @ replicate k []"
    using sweepColumns_anchors [of "\<lparr>rowsS = map (seedRow t) [0..<length (bodies t)], marksS = [],
                  stopS = False, arraysS = rowsH t\<rparr>" "cellsH t" 0]
    by (auto simp: serialize_def Let_def sameAnchors_def)
  then show ?thesis by (simp add: gridPairs_def)
qed

lemma map_snd_gridPairs: "map snd (gridPairs t) = cellsOfGrid t"
  by (simp add: gridPairs_def cellsOfGrid_def map_concat comp_def)

lemma subseq_concat_map:
  assumes "subseq xs ys" and "\<And>x. subseq (f x) (g x)"
  shows "subseq (concat (map f xs)) (concat (map g ys))"
  using assms(1)
proof (induction rule: list_emb.induct)
  case (list_emb_Nil ys)
  then show ?case by simp
next
  case (list_emb_Cons xs ys y)
  then show ?case by (simp add: subseq_drop_many)
next
  case (list_emb_Cons2 x y xs ys)
  then show ?case using assms(2) [of x] by (simp add: list_emb_append_mono)
qed

lemma subseq_slice: "subseq (slice a b xs) xs"
proof -
  have "subseq (take n (drop i xs)) (drop i xs)" for n i
    by (intro prefix_imp_subseq take_is_prefix)
  moreover have "subseq (drop i xs) xs" for i
    by (intro suffix_imp_subseq suffix_drop)
  ultimately show ?thesis
    unfolding slice_def Let_def by (blast intro: subseq_order.trans)
qed

lemma isAnchor_eq: "(\<lambda>p. offsetRow p = 0 \<and> offsetColumn p = 0) = isAnchor"
  by (simp add: isAnchor_def fun_eq_iff)

lemma subseq_distinct: "subseq xs ys \<Longrightarrow> distinct ys \<Longrightarrow> distinct xs"
  using in_set_subseqs subseqs_distinctD by blast

lemma subseq_set_subset: "subseq xs ys \<Longrightarrow> set xs \<subseteq> set ys"
  by (metis set_nths_subset subseq_conv_nths)

lemma mergeSelection_subseq:
  assumes "mergeSelection rng (fst (serialize t)) = Inr sel"
  shows "subseq (map pairOf sel) (gridPairs t)"
proof -
  define a where "a = toNumber (columnIndex (startPosition rng))"
  define b where "b = toNumber (columnIndex (endPosition rng)) + 1"
  have sel: "map pairOf sel = concat (map (\<lambda>rw. map pairOf (filter isAnchor (slice a b (cellsPosition rw))))
                 (slice (toNumber (rowIndex (startPosition rng)))
                        (toNumber (rowIndex (endPosition rng)) + 1) (fst (serialize t))))"
    using assms
    by (auto simp: mergeSelection_def Let_def map_concat comp_def isAnchor_eq a_def b_def
             split: if_splits)
  have "subseq (map pairOf (filter isAnchor (slice a b (cellsPosition rw)))) (anchorsOf rw)" for rw
    unfolding anchorsOf_def by (intro subseq_map subseq_filter subseq_slice)
  then show ?thesis
    unfolding sel serialize_anchors [symmetric]
    by (intro subseq_concat_map subseq_slice)
qed

lemma mergeSelection_in_grid:
  assumes "mergeSelection rng (fst (serialize t)) = Inr sel"
    and "distinct (cellsOfGrid t)"
  shows "distinct (map cell sel)"
    and "\<forall>p \<in> set sel. row p \<in> set (bodies t) \<and> cell p \<in> set (rowsH t ! row p)"
proof -
  have s: "subseq (map pairOf sel) (gridPairs t)"
    by (rule mergeSelection_subseq [OF assms(1)])
  have "subseq (map snd (map pairOf sel)) (map snd (gridPairs t))"
    by (rule subseq_map [OF s])
  then have "subseq (map cell sel) (cellsOfGrid t)"
    by (simp add: map_snd_gridPairs comp_def pairOf_def)
  then show "distinct (map cell sel)"
    using assms(2) by (rule subseq_distinct)
  have "set (map pairOf sel) \<subseteq> set (gridPairs t)"
    using s by (rule subseq_set_subset)
  then show "\<forall>p \<in> set sel. row p \<in> set (bodies t) \<and> cell p \<in> set (rowsH t ! row p)"
    by (auto simp: gridPairs_def pairOf_def)
qed

subsection \<open>Removing the merged cells\<close>

lemma mergeCellsRemove_eq:
  assumes "cell p \<in> set (rowsH t ! row p)" and "row p < length (rowsH t)"
    and "row p \<in> set (bodies t)" and "distinct (bodies t)" and "distinct (rowsH t ! row p)"
  shows "mergeCellsRemove p t
    = t\<lparr>rowsH := (rowsH t)[row p := filter (\<lambda>k. k \<noteq> cell p) (rowsH t ! row p)],
        bodies := (if filter (\<lambda>k. k \<noteq> cell p) (rowsH t ! row p) = []
                   then filter (\<lambda>r. r \<noteq> row p) (bodies t) else bodies t)\<rparr>"
proof -
  have i: "indexOf (rowsH t ! row p) (cell p) > - 1"
    using assms(1) by (simp add: indexOf_present)
  have r: "splice (indexOf (rowsH t ! row p) (cell p)) (Suc 0) [] (rowsH t ! row p)
             = filter (\<lambda>k. k \<noteq> cell p) (rowsH t ! row p)"
    using splice_remove1 [OF assms(1)] assms(5)
    by (simp add: distinct_remove1_removeAll removeAll_filter_not_eq) metis
  have b: "splice (indexOf (bodies t) (row p)) (Suc 0) [] (bodies t)
             = filter (\<lambda>r. r \<noteq> row p) (bodies t)"
    using splice_remove1 [OF assms(3)] assms(4)
    by (simp add: distinct_remove1_removeAll removeAll_filter_not_eq) metis
  show ?thesis
    using i assms(2) unfolding mergeCellsRemove_def Let_def updateRow_def
    by (simp add: r b)
qed

definition removable :: "TableCellPosition list \<Rightarrow> TableComponent \<Rightarrow> bool" where
  "removable ps t = (distinct (map pairOf ps) \<and> distinct (bodies t)
     \<and> (\<forall>p \<in> set ps. row p \<in> set (bodies t) \<and> row p < length (rowsH t)
                        \<and> cell p \<in> set (rowsH t ! row p))
     \<and> (\<forall>r \<in> set (bodies t). distinct (rowsH t ! r)))"

lemma removable_step:
  assumes "removable (p # ps) t"
  shows "removable ps (mergeCellsRemove p t)"
proof -
  have p: "cell p \<in> set (rowsH t ! row p)" "row p < length (rowsH t)" "row p \<in> set (bodies t)"
      "distinct (bodies t)" "distinct (rowsH t ! row p)"
    using assms by (auto simp: removable_def)
  note eq = mergeCellsRemove_eq [OF p]
  have q: "row q \<in> set (bodies (mergeCellsRemove p t))
           \<and> cell q \<in> set (rowsH (mergeCellsRemove p t) ! row q)" if "q \<in> set ps" for q
  proof -
    have "pairOf q \<in> pairOf ` set ps" using that by simp
    moreover have "pairOf p \<notin> pairOf ` set ps" using assms by (simp add: removable_def)
    ultimately have "pairOf q \<noteq> pairOf p" by metis
    moreover have "row q \<in> set (bodies t)" "cell q \<in> set (rowsH t ! row q)"
      using assms that by (auto simp: removable_def)
    ultimately show ?thesis
      unfolding eq using p(2)
      by (cases "row q = row p") (auto simp: pairOf_def filter_empty_conv)
  qed
  have d: "distinct (rowsH (mergeCellsRemove p t) ! r)" if "r \<in> set (bodies t)" for r
    using assms that p(2) unfolding eq
    by (cases "r = row p") (auto simp: removable_def)
  show ?thesis
    unfolding removable_def
  proof (intro conjI ballI)
    show "distinct (map pairOf ps)" using assms by (simp add: removable_def)
    show "distinct (bodies (mergeCellsRemove p t))" using p(4) by (simp add: eq)
    show "row q \<in> set (bodies (mergeCellsRemove p t))" if "q \<in> set ps" for q
      using q [OF that] by simp
    show "row q < length (rowsH (mergeCellsRemove p t))" if "q \<in> set ps" for q
      using assms that by (simp add: eq removable_def)
    show "cell q \<in> set (rowsH (mergeCellsRemove p t) ! row q)" if "q \<in> set ps" for q
      using q [OF that] by simp
    show "distinct (rowsH (mergeCellsRemove p t) ! r)"
      if "r \<in> set (bodies (mergeCellsRemove p t))" for r
    proof -
      have "r \<in> set (bodies t)" using that by (auto simp: eq split: if_splits)
      then show ?thesis by (rule d)
    qed
  qed
qed

lemma each_mergeCellsRemove:
  assumes "removable ps t"
  shows "cellsH (each mergeCellsRemove ps t) = cellsH t
     \<and> fragsH (each mergeCellsRemove ps t) = fragsH t
     \<and> dirtied (each mergeCellsRemove ps t) = dirtied t
     \<and> length (rowsH (each mergeCellsRemove ps t)) = length (rowsH t)
     \<and> (\<forall>r < length (rowsH t). rowsH (each mergeCellsRemove ps t) ! r
            = filter (\<lambda>k. (r, k) \<notin> pairOf ` set ps) (rowsH t ! r))
     \<and> bodies (each mergeCellsRemove ps t)
         = filter (\<lambda>r. rowsH (each mergeCellsRemove ps t) ! r \<noteq> [] \<or> rowsH t ! r = []) (bodies t)"
  using assms
proof (induction ps arbitrary: t)
  case Nil
  have "filter (\<lambda>r. rowsH t ! r \<noteq> [] \<or> rowsH t ! r = []) (bodies t) = bodies t"
    by simp
  then show ?case by simp
next
  case (Cons p ps)
  define t' where "t' = mergeCellsRemove p t"
  define t2 where "t2 = each mergeCellsRemove ps t'"
  have p: "cell p \<in> set (rowsH t ! row p)" "row p < length (rowsH t)" "row p \<in> set (bodies t)"
      "distinct (bodies t)" "distinct (rowsH t ! row p)"
    using Cons.prems by (auto simp: removable_def)
  have eq: "t' = t\<lparr>rowsH := (rowsH t)[row p := filter (\<lambda>k. k \<noteq> cell p) (rowsH t ! row p)],
        bodies := (if filter (\<lambda>k. k \<noteq> cell p) (rowsH t ! row p) = []
                   then filter (\<lambda>r. r \<noteq> row p) (bodies t) else bodies t)\<rparr>"
    unfolding t'_def by (rule mergeCellsRemove_eq [OF p])
  have r': "removable ps t'" unfolding t'_def by (rule removable_step [OF Cons.prems])
  note ih = Cons.IH [OF r', folded t2_def]
  have len: "length (rowsH t') = length (rowsH t)" by (simp add: eq)
  have rows: "rowsH t2 ! r = filter (\<lambda>k. (r, k) \<notin> pairOf ` set (p # ps)) (rowsH t ! r)"
    if "r < length (rowsH t)" for r
  proof -
    have "rowsH t2 ! r = filter (\<lambda>k. (r, k) \<notin> pairOf ` set ps) (rowsH t' ! r)"
      using ih that len by simp
    also have "rowsH t' ! r = filter (\<lambda>k. (r, k) \<noteq> pairOf p) (rowsH t ! r)"
      using that by (cases "r = row p") (simp_all add: eq pairOf_def)
    finally show ?thesis by (simp add: conj_commute)
  qed
  have notin: "row q \<noteq> r" if "q \<in> set ps" "r \<notin> set (bodies t')" for q r
    using r' that by (auto simp: removable_def)
  have bodies: "bodies t2 = filter (\<lambda>r. rowsH t2 ! r \<noteq> [] \<or> rowsH t ! r = []) (bodies t)"
  proof (cases "filter (\<lambda>k. k \<noteq> cell p) (rowsH t ! row p) = []")
    case False
    then have b: "bodies t' = bodies t" by (simp add: eq)
    have "(rowsH t' ! r = []) = (rowsH t ! r = [])" if "r \<in> set (bodies t)" for r
      using False p(1,2) by (cases "r = row p") (auto simp: eq)
    then have "filter (\<lambda>r. rowsH t2 ! r \<noteq> [] \<or> rowsH t' ! r = []) (bodies t)
               = filter (\<lambda>r. rowsH t2 ! r \<noteq> [] \<or> rowsH t ! r = []) (bodies t)"
      by (intro filter_cong) simp_all
    then show ?thesis using ih b by simp
  next
    case True
    then have b: "bodies t' = filter (\<lambda>r. r \<noteq> row p) (bodies t)" by (simp add: eq)
    have e': "rowsH t' ! row p = []" using True p(2) by (simp add: eq)
    have "rowsH t2 ! row p = filter (\<lambda>k. (row p, k) \<notin> pairOf ` set ps) (rowsH t' ! row p)"
      using ih p(2) len by simp
    then have e2: "rowsH t2 ! row p = []" using e' by simp
    have ne: "rowsH t ! row p \<noteq> []" using p(1) by auto
    have "filter (\<lambda>r. rowsH t2 ! r \<noteq> [] \<or> rowsH t' ! r = []) (filter (\<lambda>r. r \<noteq> row p) (bodies t))
            = filter (\<lambda>r. rowsH t2 ! r \<noteq> [] \<or> rowsH t ! r = []) (bodies t)"
      unfolding filter_filter
    proof (intro filter_cong refl)
      fix r assume "r \<in> set (bodies t)"
      show "(r \<noteq> row p \<and> (rowsH t2 ! r \<noteq> [] \<or> rowsH t' ! r = []))
              = (rowsH t2 ! r \<noteq> [] \<or> rowsH t ! r = [])"
        using e2 ne by (cases "r = row p") (simp_all add: eq)
    qed
    then show ?thesis using ih b by simp
  qed
  show ?case
    unfolding each.simps t'_def [symmetric] t2_def [symmetric]
    using ih rows bodies by (simp add: eq)
qed

subsection \<open>The grid store after \<open>mergeCells\<close>\<close>

lemma distinct_concat_unique:
  "distinct (concat (map f xs)) \<Longrightarrow> a \<in> set xs \<Longrightarrow> b \<in> set xs \<Longrightarrow> k \<in> set (f a)
     \<Longrightarrow> k \<in> set (f b) \<Longrightarrow> a = b"
  by (induction xs) auto

lemma distinct_concat_each:
  "distinct (concat (map f xs)) \<Longrightarrow> a \<in> set xs \<Longrightarrow> distinct (f a)"
  by (induction xs) auto

lemma mergeSelection_anchors:
  "mergeSelection rng cellMatrix = Inr sel \<Longrightarrow> p \<in> set sel
     \<Longrightarrow> offsetRow p = 0 \<and> offsetColumn p = 0"
  by (auto simp: mergeSelection_def Let_def split: if_splits)

subsection \<open>The positions of a rectangle that start a cell\<close>

text \<open>
  The rectangle of \<open>params\<close> as \<open>mergeCells\<close> reads it
  (\<open>minRow\<close>, \<open>minColumn\<close>, \<open>maxRow\<close>, \<open>maxColumn\<close>), a rectangle that lies inside the
  matrix, and the positions of the matrix inside a rectangle that start a cell:
  by coordinates, row by row from the top, from left to right within a row.
\<close>

definition rectangleOf :: "TableEditRange \<Rightarrow> int \<times> int \<times> int \<times> int" where
  "rectangleOf rng =
     (toNumber (rowIndex (startPosition rng)), toNumber (columnIndex (startPosition rng)),
      toNumber (rowIndex (endPosition rng)), toNumber (columnIndex (endPosition rng)))"

fun insideMatrix :: "TableRowPosition list \<Rightarrow> int \<times> int \<times> int \<times> int \<Rightarrow> bool" where
  "insideMatrix m (r1, c1, r2, c2) =
     (0 \<le> r1 \<and> r1 \<le> r2 \<and> r2 < int (length m) \<and> 0 \<le> c1 \<and> c1 \<le> c2
      \<and> (\<forall>rw \<in> set m. c2 < int (length (cellsPosition rw))))"

fun anchorsInside ::
  "TableRowPosition list \<Rightarrow> int \<times> int \<times> int \<times> int \<Rightarrow> TableCellPosition list" where
  "anchorsInside m (r1, c1, r2, c2) =
     concat (map (\<lambda>r. filter (\<lambda>p. offsetRow p = 0 \<and> offsetColumn p = 0)
                        (map (\<lambda>c. cellsPosition (m ! r) ! c) [nat c1..<nat c2 + 1]))
              [nat r1..<nat r2 + 1])"

lemma slice_upt:
  assumes "0 \<le> a" and "a \<le> b" and "b < int (length xs)"
  shows "slice a (b + 1) xs = map (\<lambda>i. xs ! i) [nat a..<nat b + 1]"
proof -
  have r: "relIndex xs a = nat a" "relIndex xs (b + 1) = nat b + 1"
    using assms by (auto simp: relIndex_def Let_def min_def)
  have n: "nat a \<le> nat b" "nat b < length xs" using assms by linarith+
  have "take (nat b + 1 - nat a) (drop (nat a) xs) = map (\<lambda>i. xs ! i) [nat a..<nat b + 1]"
  proof (rule nth_equalityI)
    show "length (take (nat b + 1 - nat a) (drop (nat a) xs))
            = length (map (\<lambda>i. xs ! i) [nat a..<nat b + 1])"
      using n by simp
  next
    fix i assume "i < length (take (nat b + 1 - nat a) (drop (nat a) xs))"
    then have "i < nat b + 1 - nat a" by simp
    then show "take (nat b + 1 - nat a) (drop (nat a) xs) ! i
                 = map (\<lambda>i. xs ! i) [nat a..<nat b + 1] ! i"
      using n by (simp del: upt_Suc add: less_diff_conv add.commute)
  qed
  then show ?thesis unfolding slice_def Let_def r by simp
qed

lemma mergeSelection_anchorsInside:
  assumes "insideMatrix m (rectangleOf rng)"
  shows "mergeSelection rng m = Inr (anchorsInside m (rectangleOf rng))"
proof -
  define r1 where "r1 = toNumber (rowIndex (startPosition rng))"
  define c1 where "c1 = toNumber (columnIndex (startPosition rng))"
  define r2 where "r2 = toNumber (rowIndex (endPosition rng))"
  define c2 where "c2 = toNumber (columnIndex (endPosition rng))"
  have rect: "rectangleOf rng = (r1, c1, r2, c2)"
    by (simp add: rectangleOf_def r1_def c1_def r2_def c2_def)
  have b: "0 \<le> r1" "r1 \<le> r2" "r2 < int (length m)" "0 \<le> c1" "c1 \<le> c2"
    and w: "\<And>rw. rw \<in> set m \<Longrightarrow> c2 < int (length (cellsPosition rw))"
    using assms unfolding rect by simp_all
  have rows: "slice r1 (r2 + 1) m = map (\<lambda>r. m ! r) [nat r1..<nat r2 + 1]"
    by (rule slice_upt [OF b(1,2,3)])
  have ne: "slice r1 (r2 + 1) m \<noteq> []" using b unfolding rows by simp
  have cols: "slice c1 (c2 + 1) (cellsPosition (m ! r))
                = map (\<lambda>c. cellsPosition (m ! r) ! c) [nat c1..<nat c2 + 1]"
    if "r \<in> set [nat r1..<nat r2 + 1]" for r
  proof -
    have "r < length m" using that b by auto
    then have "c2 < int (length (cellsPosition (m ! r)))" by (intro w nth_mem)
    then show ?thesis by (rule slice_upt [OF b(4,5)])
  qed
  have "mergeSelection rng m
          = Inr (concat (map (\<lambda>rw. filter (\<lambda>p. offsetRow p = 0 \<and> offsetColumn p = 0)
                                  (slice c1 (c2 + 1) (cellsPosition rw))) (slice r1 (r2 + 1) m)))"
    using ne unfolding mergeSelection_def Let_def r1_def c1_def r2_def c2_def by simp
  also have "map (\<lambda>rw. filter (\<lambda>p. offsetRow p = 0 \<and> offsetColumn p = 0)
                       (slice c1 (c2 + 1) (cellsPosition rw))) (slice r1 (r2 + 1) m)
           = map (\<lambda>r. filter (\<lambda>p. offsetRow p = 0 \<and> offsetColumn p = 0)
                        (map (\<lambda>c. cellsPosition (m ! r) ! c) [nat c1..<nat c2 + 1]))
               [nat r1..<nat r2 + 1]"
    unfolding rows map_map comp_def using cols by (intro map_cong refl) simp
  finally show ?thesis unfolding rect by simp
qed

subsection \<open>The grid store after the merge\<close>

text \<open>
  Claim C4. Let the grid store be well formed: \<open>bodies\<close> names no row array twice, no
  cell stands twice in the rows of \<open>bodies\<close>, and every row of \<open>bodies\<close> exists. Let the
  rectangle of \<open>params\<close> lie inside the matrix, and let \<open>newNode\<close> be the first and \<open>others\<close>
  the remaining positions inside the rectangle that start a cell
  (\<open>offsetRow = offsetColumn = 0\<close>), in the order of the coordinates. Then these are the
  positions \<open>mergeCells\<close> selects, and the first half of \<open>mergeCells\<close> (up to the end of
  its \<open>forEach\<close>) ends without an error in a component \<open>t2\<close> in which: the cell of
  \<open>newNode\<close> has \<open>rowspan\<close> the height and \<open>colspan\<close> the width of the rectangle and no other
  cell object has changed; no fragment has changed, so nothing of the removed cells is
  added to the content of the kept cell; every row array of \<open>bodies\<close> has lost exactly
  the cells of \<open>others\<close>, and no other row array has changed; \<open>bodies\<close> has lost exactly
  the rows these removals have emptied; and the cell of \<open>newNode\<close> still stands in its
  row, which is still in \<open>bodies\<close>. \<open>mergeCells\<close> then selects the kept cell again in \<open>t2\<close>
  and ends as that selection does; when the selection returns, the component is \<open>t2\<close>
  with the row arrays \<open>serialize\<close> has added.
\<close>

theorem mergeCells_keeps_first_anchor:
  assumes "distinct (bodies t)" and "distinct (cellsOfGrid t)"
    and "\<forall>r \<in> set (bodies t). r < length (rowsH t)"
    and "params cmd = Some rng"
    and "insideMatrix (fst (serialize t)) (rectangleOf rng)"
    and "anchorsInside (fst (serialize t)) (rectangleOf rng) = newNode # others"
  shows "mergeSelection rng (fst (serialize t)) = Inr (newNode # others)
     \<and> offsetRow newNode = 0 \<and> offsetColumn newNode = 0
     \<and> (\<exists>t2. mergeCellsStore rng (fst (serialize t)) (snd (serialize t))
                = Inr (fragment (cellsH t ! cell newNode), t2)
         \<and> cellsH t2 = (cellsH t)[cell newNode := (cellsH t ! cell newNode)
          \<lparr>rowspan := toNumber (rowIndex (endPosition rng))
                        - toNumber (rowIndex (startPosition rng)) + 1,
           colspan := toNumber (columnIndex (endPosition rng))
                        - toNumber (columnIndex (startPosition rng)) + 1\<rparr>]
         \<and> fragsH t2 = fragsH t \<and> dirtied t2 = dirtied t
         \<and> length (rowsH t2) = length (rowsH (snd (serialize t)))
         \<and> (\<forall>r \<in> set (bodies t).
                rowsH t2 ! r = filter (\<lambda>k. k \<notin> cell ` set others) (rowsH t ! r))
         \<and> (\<forall>r < length (rowsH t2).
                r \<notin> set (bodies t) \<longrightarrow> rowsH t2 ! r = rowsH (snd (serialize t)) ! r)
         \<and> bodies t2 = filter (\<lambda>r. rowsH t2 ! r \<noteq> [] \<or> rowsH t ! r = []) (bodies t)
         \<and> row newNode \<in> set (bodies t2) \<and> cell newNode \<in> set (rowsH t2 ! row newNode)
         \<and> mergeCells cmd t =
             (case selectCells (fragment (cellsH t ! cell newNode))
                     (fragment (cellsH t ! cell newNode)) t2 of
                None \<Rightarrow> None
              | Some (Inl e, t3) \<Rightarrow> Some (Inl e)
              | Some (Inr res, t3) \<Rightarrow>
                  Some (Inr (cmd\<lparr>params := Some (updateEnd (\<lambda>_. endCellPosition res)
                                 (updateStart (\<lambda>_. startCellPosition res) rng))\<rparr>, t3)))
         \<and> (\<forall>x t3. selectCells (fragment (cellsH t ! cell newNode))
                       (fragment (cellsH t ! cell newNode)) t2 = Some (x, t3)
                \<longrightarrow> (\<exists>k. t3 = t2\<lparr>rowsH := rowsH t2 @ replicate k []\<rparr>)))"
proof -
  define upd where "upd = (\<lambda>k :: TableCell. k\<lparr>rowspan := toNumber (rowIndex (endPosition rng))
                                          - toNumber (rowIndex (startPosition rng)) + 1,
                             colspan := toNumber (columnIndex (endPosition rng))
                                          - toNumber (columnIndex (startPosition rng)) + 1\<rparr>)"
  define tA where "tA = updateCell (cell newNode) upd (snd (serialize t))"
  define t2 where "t2 = each mergeCellsRemove others tA"
  define f where "f = fragment (cellsH t ! cell newNode)"
  have sel: "mergeSelection rng (fst (serialize t)) = Inr (newNode # others)"
    using mergeSelection_anchorsInside [OF assms(5)] assms(6) by simp
  obtain j where t1: "snd (serialize t) = t\<lparr>rowsH := rowsH t @ replicate j []\<rparr>"
    using serialize_component [of t] by blast
  have tA: "tA = t\<lparr>rowsH := rowsH t @ replicate j [],
                 cellsH := (cellsH t)[cell newNode := upd (cellsH t ! cell newNode)]\<rparr>"
    by (simp add: tA_def t1 updateCell_def)
  have rowA: "rowsH tA ! r = rowsH t ! r" if "r \<in> set (bodies t)" for r
    using assms(3) that by (simp add: tA nth_append)
  note grid = mergeSelection_in_grid [OF sel assms(2)]
  have anchors: "offsetRow newNode = 0 \<and> offsetColumn newNode = 0"
    by (rule mergeSelection_anchors [OF sel]) simp
  have dp: "distinct (map pairOf others)"
  proof -
    have "distinct (map snd (map pairOf others))"
      using grid(1) by (simp add: comp_def pairOf_def)
    then show ?thesis by (simp only: distinct_map)
  qed
  have rem: "removable others tA"
    unfolding removable_def
  proof (intro conjI ballI)
    show "distinct (map pairOf others)" by (rule dp)
    show "distinct (bodies tA)" using assms(1) by (simp add: tA)
    show "row p \<in> set (bodies tA)" if "p \<in> set others" for p
      using grid(2) that by (simp add: tA)
    show "row p < length (rowsH tA)" if "p \<in> set others" for p
      using grid(2) assms(3) that by (auto simp: tA intro: trans_less_add1)
    show "cell p \<in> set (rowsH tA ! row p)" if "p \<in> set others" for p
      using grid(2) that by (simp add: rowA)
    show "distinct (rowsH tA ! r)" if "r \<in> set (bodies tA)" for r
    proof -
      have r: "r \<in> set (bodies t)" using that by (simp add: tA)
      have "distinct (rowsH t ! r)"
        using distinct_concat_each [of "\<lambda>r. rowsH t ! r" "bodies t" r] assms(2) r
        by (simp add: cellsOfGrid_def)
      then show ?thesis by (simp add: rowA [OF r])
    qed
  qed
  note e = each_mergeCellsRemove [OF rem, folded t2_def]
  have pairs: "((r, k) \<in> pairOf ` set others) = (k \<in> cell ` set others)"
    if "r \<in> set (bodies t)" "k \<in> set (rowsH t ! r)" for r k
  proof
    assume "(r, k) \<in> pairOf ` set others"
    then show "k \<in> cell ` set others" by (auto simp: pairOf_def)
  next
    assume "k \<in> cell ` set others"
    then obtain q where q: "q \<in> set others" "k = cell q" by auto
    then have "row q \<in> set (bodies t)" "k \<in> set (rowsH t ! row q)"
      using grid(2) by auto
    then have "row q = r"
      using distinct_concat_unique [of "\<lambda>r. rowsH t ! r" "bodies t" "row q" r k] assms(2) that
      by (simp add: cellsOfGrid_def)
    then show "(r, k) \<in> pairOf ` set others"
      using q by (auto simp: pairOf_def image_iff)
  qed
  have lenA: "length (rowsH tA) = length (rowsH (snd (serialize t)))"
    by (simp add: tA t1)
  have len: "length (rowsH t2) = length (rowsH (snd (serialize t)))"
    using e lenA by simp
  have rows: "rowsH t2 ! r = filter (\<lambda>k. k \<notin> cell ` set others) (rowsH t ! r)"
    if "r \<in> set (bodies t)" for r
  proof -
    have "r < length (rowsH tA)" using assms(3) that by (auto simp: tA intro: trans_less_add1)
    then have "rowsH t2 ! r = filter (\<lambda>k. (r, k) \<notin> pairOf ` set others) (rowsH t ! r)"
      using e rowA [OF that] by simp
    also have "\<dots> = filter (\<lambda>k. k \<notin> cell ` set others) (rowsH t ! r)"
      using pairs [OF that] by (intro filter_cong) simp_all
    finally show ?thesis .
  qed
  have other: "rowsH t2 ! r = rowsH (snd (serialize t)) ! r"
    if "r < length (rowsH t2)" "r \<notin> set (bodies t)" for r
  proof -
    have l: "r < length (rowsH tA)" using that(1) len lenA by simp
    have "(r, k) \<notin> pairOf ` set others" for k
      using grid(2) that(2) by (auto simp: pairOf_def)
    then have "filter (\<lambda>k. (r, k) \<notin> pairOf ` set others) (rowsH tA ! r) = rowsH tA ! r"
      by simp
    then have "rowsH t2 ! r = rowsH tA ! r" using e l by simp
    then show ?thesis by (simp add: tA t1)
  qed
  have "bodies t2 = filter (\<lambda>r. rowsH t2 ! r \<noteq> [] \<or> rowsH tA ! r = []) (bodies t)"
    using e by (simp add: tA)
  also have "\<dots> = filter (\<lambda>r. rowsH t2 ! r \<noteq> [] \<or> rowsH t ! r = []) (bodies t)"
    using rowA by (intro filter_cong) simp_all
  finally have bodies: "bodies t2 = filter (\<lambda>r. rowsH t2 ! r \<noteq> [] \<or> rowsH t ! r = []) (bodies t)" .
  have n: "row newNode \<in> set (bodies t)" "cell newNode \<in> set (rowsH t ! row newNode)"
    using grid(2) by simp_all
  have "cell newNode \<notin> cell ` set others" using grid(1) by simp
  then have s: "cell newNode \<in> set (rowsH t2 ! row newNode)"
    using n by (simp add: rows)
  then have s': "row newNode \<in> set (bodies t2)"
    using n(1) unfolding bodies by auto
  have cells: "cellsH t2 = (cellsH t)[cell newNode := upd (cellsH t ! cell newNode)]"
    using e by (simp add: tA)
  have frags: "fragsH t2 = fragsH t" and dirt: "dirtied t2 = dirtied t"
    using e by (simp_all add: tA)
  have "fragment (cellsH t2 ! cell newNode) = f"
    unfolding cells f_def
    by (cases "cell newNode < length (cellsH t)") (simp_all add: upd_def list_update_beyond)
  then have store: "mergeCellsStore rng (fst (serialize t)) (snd (serialize t)) = Inr (f, t2)"
    using sel by (simp add: mergeCellsStore_def Let_def t2_def tA_def upd_def)
  have merge: "mergeCells cmd t =
      (case selectCells f f t2 of
         None \<Rightarrow> None
       | Some (Inl e, t3) \<Rightarrow> Some (Inl e)
       | Some (Inr res, t3) \<Rightarrow>
           Some (Inr (cmd\<lparr>params := Some (updateEnd (\<lambda>_. endCellPosition res)
                          (updateStart (\<lambda>_. startCellPosition res) rng))\<rparr>, t3)))"
    by (simp add: mergeCells_def split_beta assms(4) store)
  have again: "\<exists>k. t3 = t2\<lparr>rowsH := rowsH t2 @ replicate k []\<rparr>"
    if "selectCells f f t2 = Some (x, t3)" for x t3
  proof -
    have "t3 = snd (serialize t2)"
      using that by (auto simp: selectCells_def split_beta split: option.splits)
    then show ?thesis using serialize_component [of t2] by simp
  qed
  have "mergeCellsStore rng (fst (serialize t)) (snd (serialize t)) = Inr (f, t2)
         \<and> cellsH t2 = (cellsH t)[cell newNode := upd (cellsH t ! cell newNode)]
         \<and> fragsH t2 = fragsH t \<and> dirtied t2 = dirtied t
         \<and> length (rowsH t2) = length (rowsH (snd (serialize t)))
         \<and> (\<forall>r \<in> set (bodies t).
                rowsH t2 ! r = filter (\<lambda>k. k \<notin> cell ` set others) (rowsH t ! r))
         \<and> (\<forall>r < length (rowsH t2).
                r \<notin> set (bodies t) \<longrightarrow> rowsH t2 ! r = rowsH (snd (serialize t)) ! r)
         \<and> bodies t2 = filter (\<lambda>r. rowsH t2 ! r \<noteq> [] \<or> rowsH t ! r = []) (bodies t)
         \<and> row newNode \<in> set (bodies t2) \<and> cell newNode \<in> set (rowsH t2 ! row newNode)
         \<and> mergeCells cmd t =
             (case selectCells f f t2 of
                None \<Rightarrow> None
              | Some (Inl e, t3) \<Rightarrow> Some (Inl e)
              | Some (Inr res, t3) \<Rightarrow>
                  Some (Inr (cmd\<lparr>params := Some (updateEnd (\<lambda>_. endCellPosition res)
                                 (updateStart (\<lambda>_. startCellPosition res) rng))\<rparr>, t3)))
         \<and> (\<forall>x t3. selectCells f f t2 = Some (x, t3)
                \<longrightarrow> (\<exists>k. t3 = t2\<lparr>rowsH := rowsH t2 @ replicate k []\<rparr>))"
    using store cells frags dirt len rows other bodies s s' merge again by blast
  then show ?thesis
    using sel anchors unfolding upd_def f_def by blast
qed

text \<open>
  A table of two rows whose third column is one cell of two rows; the four other cells
  are merged.
\<close>

definition tallLastCell :: TableComponent where
  "tallLastCell = tableOf [[(1, 1), (1, 1), (2, 1)], [(1, 1), (1, 1)]]"

definition tallLastCellRange :: TableEditRange where
  "tallLastCellRange = Separate
     \<lparr>beforeCell = None, afterCell = Some 1, row = 0, cell = 0,
       rowIndex = Some 0, columnIndex = Some 0, offsetColumn = 0, offsetRow = 0\<rparr>
     \<lparr>beforeCell = Some 3, afterCell = None, row = 1, cell = 4,
       rowIndex = Some 1, columnIndex = Some 1, offsetColumn = 0, offsetRow = 0\<rparr>"

definition tallLastCellMerged :: TableComponent where
  "tallLastCellMerged = \<lparr>cellsH = [\<lparr>colspan = 2, rowspan = 2, fragment = 0\<rparr>,
       \<lparr>colspan = 1, rowspan = 1, fragment = 1\<rparr>, \<lparr>colspan = 1, rowspan = 2, fragment = 2\<rparr>,
       \<lparr>colspan = 1, rowspan = 1, fragment = 3\<rparr>, \<lparr>colspan = 1, rowspan = 1, fragment = 4\<rparr>],
     rowsH = [[0, 2], []],
     fragsH = [[Component 0], [Component 1], [Component 2], [Component 3], [Component 4]],
     bodies = [0], dirtied = False\<rparr>"

definition tallLastCellAgain :: TableEditRange where
  "tallLastCellAgain = Separate
     \<lparr>beforeCell = None, afterCell = Some 2, row = 0, cell = 0,
       rowIndex = Some 0, columnIndex = Some 0, offsetColumn = 0, offsetRow = 0\<rparr>
     \<lparr>beforeCell = None, afterCell = None, row = 2, cell = 0,
       rowIndex = Some 1, columnIndex = Some 1, offsetColumn = 1, offsetRow = 1\<rparr>"

lemma tallLastCell_grid:
  "distinct (bodies tallLastCell)" "distinct (cellsOfGrid tallLastCell)"
  "\<forall>r \<in> set (bodies tallLastCell). r < length (rowsH tallLastCell)"
  by code_simp+

lemma tallLastCell_inside:
  "insideMatrix (fst (serialize tallLastCell)) (rectangleOf tallLastCellRange)"
  by code_simp

lemma tallLastCell_anchors:
  "anchorsInside (fst (serialize tallLastCell)) (rectangleOf tallLastCellRange)
     = positionOf tallLastCell 0 0
       # [positionOf tallLastCell 0 1, positionOf tallLastCell 1 0, positionOf tallLastCell 1 1]"
  by code_simp

lemma tallLastCell_store:
  "mergeCellsStore tallLastCellRange (fst (serialize tallLastCell)) (snd (serialize tallLastCell))
     = Inr (0, tallLastCellMerged)"
  by code_simp

lemma tallLastCell_select:
  "selectCells 0 0 tallLastCellMerged
     = Some (Inr \<lparr>startCellPosition = startPosition tallLastCellAgain,
                  endCellPosition = endPosition tallLastCellAgain, selectedCells = [0]\<rparr>,
             tallLastCellMerged\<lparr>rowsH := [[0, 2], [], []]\<rparr>)"
  by code_simp

lemma tallLastCell_first:
  "fragment (cellsH tallLastCell ! cell (positionOf tallLastCell 0 0)) = 0"
  by code_simp

theorem mergeCells_keeps_first_anchor_witness:
  "distinct (bodies tallLastCell) \<and> distinct (cellsOfGrid tallLastCell)
   \<and> list_all (\<lambda>r. r < length (rowsH tallLastCell)) (bodies tallLastCell)
   \<and> params (commanderOn tallLastCellRange) = Some tallLastCellRange
   \<and> insideMatrix (fst (serialize tallLastCell)) (rectangleOf tallLastCellRange)
   \<and> anchorsInside (fst (serialize tallLastCell)) (rectangleOf tallLastCellRange)
       = positionOf tallLastCell 0 0
         # [positionOf tallLastCell 0 1, positionOf tallLastCell 1 0, positionOf tallLastCell 1 1]
   \<and> mergeSelection tallLastCellRange (fst (serialize tallLastCell))
       = Inr (positionOf tallLastCell 0 0
         # [positionOf tallLastCell 0 1, positionOf tallLastCell 1 0, positionOf tallLastCell 1 1])
   \<and> mergeCellsStore tallLastCellRange (fst (serialize tallLastCell)) (snd (serialize tallLastCell))
       = Inr (0, tallLastCellMerged)
   \<and> cellsH tallLastCellMerged
       = (cellsH tallLastCell)[cell (positionOf tallLastCell 0 0) :=
            (cellsH tallLastCell ! cell (positionOf tallLastCell 0 0))\<lparr>rowspan := 2, colspan := 2\<rparr>]
   \<and> fragsH tallLastCellMerged = fragsH tallLastCell
   \<and> list_all (\<lambda>r. rowsH tallLastCellMerged ! r
          = filter (\<lambda>k. k \<notin> cell ` set [positionOf tallLastCell 0 1, positionOf tallLastCell 1 0,
                                          positionOf tallLastCell 1 1])
              (rowsH tallLastCell ! r)) (bodies tallLastCell)
   \<and> bodies tallLastCellMerged
       = filter (\<lambda>r. rowsH tallLastCellMerged ! r \<noteq> [] \<or> rowsH tallLastCell ! r = [])
           (bodies tallLastCell)
   \<and> row (positionOf tallLastCell 0 0) \<in> set (bodies tallLastCellMerged)
   \<and> cell (positionOf tallLastCell 0 0)
       \<in> set (rowsH tallLastCellMerged ! row (positionOf tallLastCell 0 0))
   \<and> mergeCells (commanderOn tallLastCellRange) tallLastCell
       = Some (Inr (commanderOn tallLastCellAgain, tallLastCellMerged\<lparr>rowsH := [[0, 2], [], []]\<rparr>))"
proof -
  let ?T = tallLastCell
  let ?M = tallLastCellMerged
  have p: "params (commanderOn tallLastCellRange) = Some tallLastCellRange"
    by (simp add: commanderOn_def)
  have hw: "toNumber (rowIndex (endPosition tallLastCellRange))
              - toNumber (rowIndex (startPosition tallLastCellRange)) + 1 = 2"
    "toNumber (columnIndex (endPosition tallLastCellRange))
              - toNumber (columnIndex (startPosition tallLastCellRange)) + 1 = 2"
    by (simp_all add: tallLastCellRange_def toNumber_def)
  note inst = mergeCells_keeps_first_anchor
    [OF tallLastCell_grid p tallLastCell_inside tallLastCell_anchors,
     unfolded hw tallLastCell_first tallLastCell_store]
  have sel: "mergeSelection tallLastCellRange (fst (serialize ?T))
       = Inr (positionOf ?T 0 0 # [positionOf ?T 0 1, positionOf ?T 1 0, positionOf ?T 1 1])"
    using inst by blast
  obtain t2 where eq: "Inr (0, ?M) = (Inr (0, t2) :: error + nat \<times> TableComponent)"
    and c: "cellsH t2 = (cellsH ?T)[cell (positionOf ?T 0 0) :=
            (cellsH ?T ! cell (positionOf ?T 0 0))\<lparr>rowspan := 2, colspan := 2\<rparr>]"
    and f: "fragsH t2 = fragsH ?T"
    and r: "\<forall>r \<in> set (bodies ?T). rowsH t2 ! r
          = filter (\<lambda>k. k \<notin> cell ` set [positionOf ?T 0 1, positionOf ?T 1 0, positionOf ?T 1 1])
              (rowsH ?T ! r)"
    and b: "bodies t2 = filter (\<lambda>r. rowsH t2 ! r \<noteq> [] \<or> rowsH ?T ! r = []) (bodies ?T)"
    and s: "row (positionOf ?T 0 0) \<in> set (bodies t2)"
      "cell (positionOf ?T 0 0) \<in> set (rowsH t2 ! row (positionOf ?T 0 0))"
    and m: "mergeCells (commanderOn tallLastCellRange) ?T =
             (case selectCells 0 0 t2 of
                None \<Rightarrow> None
              | Some (Inl e, t3) \<Rightarrow> Some (Inl e)
              | Some (Inr res, t3) \<Rightarrow>
                  Some (Inr ((commanderOn tallLastCellRange)\<lparr>params := Some
                     (updateEnd (\<lambda>_. endCellPosition res)
                        (updateStart (\<lambda>_. startCellPosition res) tallLastCellRange))\<rparr>, t3)))"
    using inst by blast
  have t2: "t2 = ?M" using eq by simp
  have mc: "mergeCells (commanderOn tallLastCellRange) ?T
       = Some (Inr (commanderOn tallLastCellAgain, ?M\<lparr>rowsH := [[0, 2], [], []]\<rparr>))"
    unfolding m t2 tallLastCell_select
    by (simp add: commanderOn_def tallLastCellRange_def tallLastCellAgain_def)
  show ?thesis
    unfolding list_all_iff
    using tallLastCell_grid p tallLastCell_inside tallLastCell_anchors sel tallLastCell_store
      c f r b s mc unfolding t2 by blast
qed

section \<open>The matrix of a grid whose cells tile a rectangle\<close>

subsection \<open>One visit of the loop body, on the entries of the matrix\<close>










subsection \<open>The layout of a grid\<close>

abbreviation rowOff :: "nat \<times> nat \<times> nat \<Rightarrow> nat" where "rowOff e \<equiv> fst (snd e)"
abbreviation colOff :: "nat \<times> nat \<times> nat \<Rightarrow> nat" where "colOff e \<equiv> snd (snd e)"

























subsection \<open>The state of the loops at column \<open>c\<close> and row \<open>r\<close>\<close>


definition marked ::
  "nat \<Rightarrow> nat \<Rightarrow> (nat \<Rightarrow> nat \<Rightarrow> nat \<times> nat \<times> nat) \<Rightarrow> nat \<Rightarrow> nat \<Rightarrow> (nat \<times> nat) set" where
  "marked H W L c r =
     {(i, j). i < H \<and> j < W \<and> (0 < rowOff (L i j) \<or> 0 < colOff (L i j))
        \<and> (j < c \<or> (j = c \<and> (0 < colOff (L i j) \<or> i \<le> r))
            \<or> (j = Suc c \<and> i < r \<and> 0 < colOff (L i j)))}"







subsection \<open>The two loops on a layout\<close>




lemma marked_empty: "marked 0 W L c r = {}"
  by (simp add: marked_def)




subsection \<open>Grids whose cells tile a rectangle\<close>












subsection \<open>The matrix of a tiling\<close>







end
